theory Spec2Isabelle
  imports Complex_Main
begin

section \<open>Adaptive frequency selection (freqselect.py)\<close>

text \<open>
  The routines \<open>get_new_freq\<close> and the refinement loop of \<open>design_freq_range\<close> are
  embedded as HOL functions. Floating-point numbers are idealised as real numbers, with
  one exception that the program depends on: numpy does not raise on a division by
  zero, it yields \<open>nan\<close> (for \<open>0/0\<close>) or \<open>inf\<close>, and every comparison with \<open>nan\<close> is
  false. The quotient that defines the relative error is therefore a value of the
  type \<open>npfloat\<close> below. Frequencies are positive in every use of the program, so
  \<open>np.log10\<close> is the real logarithm \<open>log 10\<close>.

  The collaborators that are not part of the repository (scipy's \<open>pchip_interpolate\<close>,
  empymod's \<open>dipole\<close> and \<open>tem\<close>) are parameters of the model.
\<close>

subsection \<open>Exceptions, numpy quotients, external interpolant\<close>

datatype exn = ValueError | IndexError

datatype npfloat = Finite real | PosInf | NaN

definition np_abs_div :: "real \<Rightarrow> real \<Rightarrow> npfloat" where
  \<comment> \<open>\<open>np.abs(a / b)\<close> on floats.\<close>
  "np_abs_div a b = (if b \<noteq> 0 then Finite \<bar>a / b\<bar> else if a = 0 then NaN else PosInf)"

fun np_gt :: "npfloat \<Rightarrow> real \<Rightarrow> bool" where
  \<comment> \<open>\<open>e > rtol\<close> for a finite \<open>rtol\<close>.\<close>
  "np_gt (Finite e) r = (r < e)"
| "np_gt PosInf r = True"
| "np_gt NaN r = False"

fun np_le :: "npfloat \<Rightarrow> real \<Rightarrow> bool" where
  \<comment> \<open>\<open>e <= rtol\<close> for a finite \<open>rtol\<close>: false for \<open>nan\<close>, as every comparison with it.\<close>
  "np_le (Finite e) r = (e \<le> r)"
| "np_le PosInf r = False"
| "np_le NaN r = False"

text \<open>
  scipy's \<open>pchip_interpolate(xi, yi, x)\<close> builds the interpolating function of the
  control points and evaluates it at \<open>x\<close>. Building it raises a ValueError (here
  \<open>None\<close>) for control arrays of different length, for fewer than two points and for
  abscissae that are not strictly increasing; evaluating it does not fail.
\<close>

type_synonym interpolant = "real list \<Rightarrow> real list \<Rightarrow> (real \<Rightarrow> real) option"

subsection \<open>Array helpers\<close>

definition py_max :: "real list \<Rightarrow> exn + real" where
  \<comment> \<open>Python's \<open>max\<close>: raises ValueError on an empty sequence.\<close>
  "py_max xs = (if xs = [] then Inl ValueError else Inr (Max (set xs)))"

definition mask_ne :: "'a list \<Rightarrow> nat \<Rightarrow> 'a list" where
  \<comment> \<open>\<open>xs[np.arange(xs.size) != i]\<close>\<close>
  "mask_ne xs i = map (\<lambda>j. xs ! j) (filter (\<lambda>j. j \<noteq> i) [0..<length xs])"

definition np_diff :: "real list \<Rightarrow> real list" where
  "np_diff xs = map (\<lambda>j. xs ! Suc j - xs ! j) [0..<length xs - 1]"

definition py_index :: "'a list \<Rightarrow> nat \<Rightarrow> exn + 'a" where
  \<comment> \<open>\<open>xs[k]\<close> for \<open>k \<ge> 0\<close>\<close>
  "py_index xs k = (if k < length xs then Inr (xs ! k) else Inl IndexError)"

definition py_last :: "'a list \<Rightarrow> exn + 'a" where
  \<comment> \<open>\<open>xs[-1]\<close>\<close>
  "py_last xs = (if xs = [] then Inl IndexError else Inr (last xs))"

subsection \<open>\<open>get_new_freq\<close>\<close>

text \<open>
  Lines 576--581: the control points of the leave-one-out interpolation for sample
  \<open>i\<close>. The test \<open>max(freq) < 1e4\<close> is only reached inside the loop over the
  indices of \<open>freq\<close>, where \<open>freq\<close> is not empty.
\<close>

definition tmp_f :: "real list \<Rightarrow> nat \<Rightarrow> real list" where
  "tmp_f freq i =
     (if Max (set freq) < 10 ^ 4 then [1 / 10 ^ 100] @ mask_ne freq i @ [10 ^ 4, 10 ^ 100]
      else [1 / 10 ^ 100] @ mask_ne freq i @ [10 ^ 100])"

definition tmp_s :: "real list \<Rightarrow> complex list \<Rightarrow> nat \<Rightarrow> complex list" where
  "tmp_s freq field i =
     (if Max (set freq) < 10 ^ 4 then [0] @ mask_ne field i @ [0, 0]
      else [0] @ mask_ne field i @ [0])"

text \<open>Lines 588--593: the control points of the complete interpolation.\<close>

definition tmp_f2 :: "real list \<Rightarrow> real list" where
  "tmp_f2 freq =
     (if Max (set freq) < 10 ^ 4 then [1 / 10 ^ 100] @ freq @ [10 ^ 4, 10 ^ 100]
      else [1 / 10 ^ 100] @ freq @ [10 ^ 100])"

definition tmp_s2 :: "real list \<Rightarrow> complex list \<Rightarrow> complex list" where
  "tmp_s2 freq field =
     (if Max (set freq) < 10 ^ 4 then [0] @ field @ [0, 0] else [0] @ field @ [0])"

definition complete_interpol ::
  "interpolant \<Rightarrow> real list \<Rightarrow> complex list \<Rightarrow> real list option \<Rightarrow> exn + complex list option" where
  "complete_interpol interp freq field req_freq =
     (case req_freq of
        None \<Rightarrow> Inr None
      | Some rq \<Rightarrow>
          (case interp (tmp_f2 freq) (map Im (tmp_s2 freq field)) of
             None \<Rightarrow> Inl ValueError
           | Some p \<Rightarrow> Inr (Some (map (\<lambda>x. \<i> * of_real (p x)) rq))))"

text \<open>
  Lines 572--594: the loop over the sample indices. The accumulator is the
  pre-allocated array \<open>i_field\<close> with the latest \<open>i_field2\<close>; the assignment
  \<open>i_field[i] = ...\<close> raises an IndexError outside the array.
\<close>

fun loo_loop ::
  "interpolant \<Rightarrow> real list \<Rightarrow> complex list \<Rightarrow> real list option \<Rightarrow> nat list \<Rightarrow>
   complex list \<times> complex list option \<Rightarrow> exn + complex list \<times> complex list option" where
  "loo_loop interp freq field req_freq [] acc = Inr acc"
| "loo_loop interp freq field req_freq (i # is) (i_field, i_field2) =
     (case interp (tmp_f freq i) (map Im (tmp_s freq field i)) of
        None \<Rightarrow> Inl ValueError
      | Some p \<Rightarrow>
          if length i_field \<le> i then Inl IndexError
          else (case complete_interpol interp freq field req_freq of
                  Inl e \<Rightarrow> Inl e
                | Inr f2 \<Rightarrow>
                    loo_loop interp freq field req_freq is
                      (i_field[i := \<i> * of_real (p (freq ! i))], f2)))"

text \<open>
  Lines 602--620: the new frequency, given the error vector and the indices \<open>ierr\<close>
  of the samples whose error exceeds \<open>rtol\<close>. The reads \<open>error[0]\<close>, \<open>error[-1]\<close> and
  \<open>lfreq[ierr[0]]\<close> are in range whenever \<open>ierr\<close> is not empty; \<open>diff\<close> has one entry
  less than \<open>freq\<close>, so \<open>diff[ierr[0]]\<close> is guarded.
\<close>

definition propose :: "real list \<Rightarrow> npfloat list \<Rightarrow> nat list \<Rightarrow> real \<Rightarrow> exn + real list" where
  "propose freq error ierr rtol =
     (if length ierr > 0 then
        let lfreq = map (log 10) freq; diff = np_diff lfreq in
        if np_gt (error ! 0) rtol then Inr [10 powr (lfreq ! (ierr ! 0) - 0.5)]
        else if np_gt (last error) rtol \<and> length ierr = 1 then
          Inr [10 powr (lfreq ! (ierr ! 0) + 0.5)]
        else (case py_index diff (ierr ! 0) of
                Inl e \<Rightarrow> Inl e
              | Inr d \<Rightarrow> Inr [10 powr (lfreq ! (ierr ! 0) + d / 2)])
      else Inr [])"

record full_output =
  new_freq :: "real list"
  i_field :: "complex list"
  error :: "npfloat list"
  ierr :: "nat list"
  i_field2 :: "complex list option"

text \<open>
  The whole routine with \<open>full_output=True\<close>. Line 597 divides by
  \<open>max(np.abs(field))\<close>, the largest complex modulus; line 600 indexes
  \<open>np.arange(freq.size)\<close> with a boolean mask as long as \<open>field\<close>, which raises an
  IndexError when the two sizes differ.
\<close>

definition get_new_freq_full ::
  "interpolant \<Rightarrow> real list \<Rightarrow> complex list \<Rightarrow> real \<Rightarrow> real list option \<Rightarrow> exn + full_output" where
  "get_new_freq_full interp freq field rtol req_freq =
     (case loo_loop interp freq field req_freq [0..<length freq]
             (replicate (length field) 0, None) of
        Inl e \<Rightarrow> Inl e
      | Inr (i_fld, i_fld2) \<Rightarrow>
          (case py_max (map cmod field) of
             Inl e \<Rightarrow> Inl e
           | Inr mx \<Rightarrow>
               let err = map2 (\<lambda>e f. np_abs_div (Im e - Im f) mx) i_fld field in
               if length err \<noteq> length freq then Inl IndexError
               else
                 let ie = filter (\<lambda>k. np_gt (err ! k) rtol) [0..<length freq] in
                 (case propose freq err ie rtol of
                    Inl e \<Rightarrow> Inl e
                  | Inr nf \<Rightarrow>
                      Inr \<lparr>new_freq = nf, i_field = i_fld, error = err, ierr = ie,
                           i_field2 = i_fld2\<rparr>)))"

text \<open>The call with the default arguments returns the new frequency only.\<close>

definition get_new_freq :: "interpolant \<Rightarrow> real list \<Rightarrow> complex list \<Rightarrow> real \<Rightarrow> exn + real list" where
  "get_new_freq interp freq field rtol =
     (case get_new_freq_full interp freq field rtol None of
        Inl e \<Rightarrow> Inl e
      | Inr out \<Rightarrow> Inr (new_freq out))"

subsection \<open>The refinement loop of \<open>design_freq_range\<close>\<close>

text \<open>
  Line 760: \<open>np.unique(xs, return_index=True)\<close> returns the sorted distinct values
  and, for each of them, the index of its first occurrence in \<open>xs\<close>.
\<close>

fun first_index :: "real list \<Rightarrow> real \<Rightarrow> nat" where
  "first_index [] v = 0"
| "first_index (x # xs) v = (if x = v then 0 else Suc (first_index xs v))"

definition np_unique :: "real list \<Rightarrow> real list \<times> nat list" where
  "np_unique xs = (let vs = sort (remdups xs) in (vs, map (first_index xs) vs))"

fun take_idx :: "'a list \<Rightarrow> nat list \<Rightarrow> exn + 'a list" where
  \<comment> \<open>Indexing with an array of indices, \<open>xs[ai]\<close>.\<close>
  "take_idx xs [] = Inr []"
| "take_idx xs (k # ks) =
     (if k < length xs then
        (case take_idx xs ks of Inl e \<Rightarrow> Inl e | Inr ys \<Rightarrow> Inr (xs ! k # ys))
      else Inl IndexError)"

text \<open>
  Lines 774--777: the three-point ramp. \<open>lfreq[-1]\<close> raises an IndexError on an
  empty array; with a single frequency \<open>np.diff(lfreq[-2:])\<close> is empty and the
  product with \<open>np.arange(1, 4)\<close> raises a ValueError (shapes do not broadcast).
\<close>

definition freq_ramp :: "real list \<Rightarrow> exn + real list" where
  "freq_ramp lfreq =
     (case py_last lfreq of
        Inl e \<Rightarrow> Inl e
      | Inr l \<Rightarrow>
          let d = np_diff (drop (length lfreq - 2) lfreq) in
          if length d = 1 then Inr (map (\<lambda>k. 10 powr (1 * l + real k * d ! 0)) [1, 2, 3])
          else Inl ValueError)"

definition fEM_ramp :: "complex list \<Rightarrow> exn + complex list" where
  "fEM_ramp fEM =
     (case py_last fEM of
        Inl e \<Rightarrow> Inl e
      | Inr z \<Rightarrow> Inr (map (\<lambda>c. of_real c * z) [0.75, 0.5, 0.25]))"

text \<open>Lines 780--781 and 785--786: the control points of the two interpolations.\<close>

definition itmp_f :: "real list \<Rightarrow> real list \<Rightarrow> real list" where
  "itmp_f freq framp = [1 / 10 ^ 100] @ freq @ framp @ [10 ^ 100]"

definition itmp_s :: "complex list \<Rightarrow> complex list \<Rightarrow> real list" where
  "itmp_s fEM ramp = [0] @ map Im fEM @ map Im ramp @ [0]"

definition rtmp_f :: "real list \<Rightarrow> real list \<Rightarrow> real list" where
  "rtmp_f freq framp = freq @ framp @ [10 ^ 100]"

definition rtmp_s :: "complex list \<Rightarrow> complex list \<Rightarrow> real list" where
  "rtmp_s fEM ramp = map Re fEM @ map Re ramp @ [0]"

definition pchip_interpolate :: "interpolant \<Rightarrow> real list \<Rightarrow> real list \<Rightarrow> real list \<Rightarrow> exn + real list" where
  "pchip_interpolate interp xi yi xs =
     (case interp xi yi of None \<Rightarrow> Inl ValueError | Some p \<Rightarrow> Inr (map p xs))"

text \<open>
  The collaborators: the forward model \<open>empymod.dipole\<close> (with the fixed model
  arguments), scipy's interpolant, and the transform \<open>empymod.model.tem\<close> (with the
  fixed times and Fourier arguments).
\<close>

record collab =
  dipole :: "real list \<Rightarrow> complex list"
  pchip :: interpolant
  tem :: "complex list \<Rightarrow> real list \<Rightarrow> real list"

text \<open>The variables that the while loop of lines 754--847 reads and updates.\<close>

record loop_state =
  cur_freq :: "real list"
  cur_fEM :: "complex list"
  cur_new_freq :: "real list"
  cur_req_freq :: "real list"
  cur_sfEM :: "complex list"
  cur_tEM :: "real list"

definition init_state :: "real list \<Rightarrow> real list \<Rightarrow> complex list \<Rightarrow> loop_state" where
  \<comment> \<open>Lines 658--672 and 750--751: empty arrays, the initial frequencies in \<open>new_freq\<close>;
      \<open>tEM\<close> is not yet bound.\<close>
  "init_state seed req_freq sfEM =
     \<lparr>cur_freq = [], cur_fEM = [], cur_new_freq = seed, cur_req_freq = req_freq,
      cur_sfEM = sfEM, cur_tEM = []\<rparr>"

text \<open>One pass through the body of the while loop (lines 756--805; the rest plots).\<close>

definition loop_body :: "collab \<Rightarrow> real \<Rightarrow> nat list \<Rightarrow> loop_state \<Rightarrow> exn + loop_state" where
  "loop_body C rtol ri st =
     (let new_fEM = dipole C (cur_new_freq st);
          (freq, ai) = np_unique (cur_freq st @ cur_new_freq st)
      in case take_idx (cur_fEM st @ new_fEM) ai of
        Inl e \<Rightarrow> Inl e
      | Inr fEM \<Rightarrow>
      (case get_new_freq_full (pchip C) freq fEM rtol (Some (cur_req_freq st)) of
        Inl e \<Rightarrow> Inl e
      | Inr out \<Rightarrow>
      (case freq_ramp (map (log 10) freq) of
        Inl e \<Rightarrow> Inl e
      | Inr framp \<Rightarrow>
      (case fEM_ramp fEM of
        Inl e \<Rightarrow> Inl e
      | Inr ramp \<Rightarrow>
      (case pchip_interpolate (pchip C) (itmp_f freq framp) (itmp_s fEM ramp) (cur_req_freq st) of
        Inl e \<Rightarrow> Inl e
      | Inr isfEM \<Rightarrow>
      (case pchip_interpolate (pchip C) (rtmp_f freq framp) (rtmp_s fEM ramp) (cur_req_freq st) of
        Inl e \<Rightarrow> Inl e
      | Inr rsfEM \<Rightarrow>
      (let sfEM = map2 (\<lambda>r i. of_real r + \<i> * of_real i) rsfEM isfEM
       in case take_idx (cur_req_freq st) ri of
        Inl e \<Rightarrow> Inl e
      | Inr req_freq \<Rightarrow>
      (case take_idx sfEM ri of
        Inl e \<Rightarrow> Inl e
      | Inr sfEM' \<Rightarrow>
          Inr \<lparr>cur_freq = freq, cur_fEM = fEM, cur_new_freq = new_freq out,
               cur_req_freq = req_freq, cur_sfEM = sfEM', cur_tEM = tem C sfEM' req_freq\<rparr>))))))))"

text \<open>
  The while loop has no iteration cap and need not terminate; \<open>iterate\<close> runs at most
  \<open>n\<close> passes and returns the state reached (the loop has ended there exactly when
  \<open>cur_new_freq\<close> is empty).
\<close>

fun iterate :: "collab \<Rightarrow> real \<Rightarrow> nat list \<Rightarrow> nat \<Rightarrow> loop_state \<Rightarrow> exn + loop_state" where
  "iterate C rtol ri 0 st = Inr st"
| "iterate C rtol ri (Suc n) st =
     (if length (cur_new_freq st) > 0 then
        (case loop_body C rtol ri st of
           Inl e \<Rightarrow> Inl e
         | Inr st' \<Rightarrow> iterate C rtol ri n st')
      else Inr st)"

subsection \<open>The relative error as the specification words it\<close>

text \<open>
  The specification normalises the error of sample \<open>i\<close> by the largest absolute
  imaginary part of the field: \<open>|estimate.imag - actual.imag| / max |actual.imag|\<close>.
\<close>

definition spec_rel_error :: "complex list \<Rightarrow> complex list \<Rightarrow> nat \<Rightarrow> npfloat" where
  "spec_rel_error estimate actual i =
     np_abs_div (Im (estimate ! i) - Im (actual ! i)) (Max (set (map (\<lambda>z. \<bar>Im z\<bar>) actual)))"

subsection \<open>A concrete interpolant for worked examples\<close>

text \<open>
  Piecewise-linear interpolation through the control points, with the failure
  conditions of scipy's interpolator. Between two neighbouring control points of equal
  value it is constant, as the shape-preserving PCHIP interpolant is; the worked
  examples below place every query on such a segment where the exact value matters.
\<close>

fun lin_at :: "real list \<Rightarrow> real list \<Rightarrow> real \<Rightarrow> real" where
  "lin_at (x0 # x1 # xs) (y0 # y1 # ys) x =
     (if x \<le> x1 \<or> xs = [] then y0 + (y1 - y0) * (x - x0) / (x1 - x0)
      else lin_at (x1 # xs) (y1 # ys) x)"
| "lin_at _ _ x = 0"

definition linear_interpolant :: interpolant where
  "linear_interpolant xi yi =
     (if length xi = length yi \<and> 2 \<le> length xi \<and> sorted_wrt (<) xi then Some (lin_at xi yi)
      else None)"

text \<open>
  Collaborators for the worked examples of the loop: a forward model whose response
  is 1 at every frequency, the piecewise-linear interpolant, and a transform that
  returns no samples.
\<close>

definition example_collab :: collab where
  "example_collab =
     \<lparr>dipole = map (\<lambda>f. 1), pchip = linear_interpolant, tem = (\<lambda>sfEM req_freq. [])\<rparr>"

subsection \<open>Rounding to double precision\<close>


definition propose_fl ::
  "(real \<Rightarrow> real) \<Rightarrow> real list \<Rightarrow> npfloat list \<Rightarrow> nat list \<Rightarrow> real \<Rightarrow> exn + real list" where
  "propose_fl fl freq err ie rtol =
     (if length ie > 0 then
        let lfreq = map (\<lambda>f. fl (log 10 f)) freq; diff = map fl (np_diff lfreq) in
        if np_gt (err ! 0) rtol then Inr [fl (10 powr fl (lfreq ! (ie ! 0) - 0.5))]
        else if np_gt (last err) rtol \<and> length ie = 1 then
          Inr [fl (10 powr fl (lfreq ! (ie ! 0) + 0.5))]
        else (case py_index diff (ie ! 0) of
                Inl e \<Rightarrow> Inl e
              | Inr d \<Rightarrow> Inr [fl (10 powr fl (lfreq ! (ie ! 0) + fl (d / 2)))])
      else Inr [])"

definition get_new_freq_rounded ::
  "(real \<Rightarrow> real) \<Rightarrow> interpolant \<Rightarrow> real list \<Rightarrow> complex list \<Rightarrow> real \<Rightarrow> exn + real list" where
  "get_new_freq_rounded fl interp freq field rtol =
     (case get_new_freq_full interp freq field rtol None of
        Inl e \<Rightarrow> Inl e
      | Inr out \<Rightarrow> propose_fl fl freq (error out) (ierr out) rtol)"

text \<open>
  A second forward model for the worked examples: the response is \<open>i\<close> at 10 kHz
  and zero elsewhere.
\<close>

definition peak_collab :: collab where
  "peak_collab =
     \<lparr>dipole = map (\<lambda>f. if f = 10000 then \<i> else 0), pchip = linear_interpolant,
      tem = (\<lambda>sfEM req_freq. [])\<rparr>"

section \<open>Supporting facts\<close>

subsection \<open>The leave-one-out loop\<close>

lemma loo_loop_acc:
  assumes "loo_loop interp freq field req js (acc, a2) = Inr (fld, f2)" "distinct js"
  shows "length fld = length acc \<and>
     (\<forall>i\<in>set js. i < length acc \<and>
        (\<exists>p. interp (tmp_f freq i) (map Im (tmp_s freq field i)) = Some p \<and>
             fld ! i = \<i> * of_real (p (freq ! i)))) \<and>
     (\<forall>i. i \<notin> set js \<longrightarrow> fld ! i = acc ! i)"
  using assms
proof (induction js arbitrary: acc a2)
  case Nil
  then show ?case by simp
next
  case (Cons j js)
  from Cons.prems(1) obtain p where
    p: "interp (tmp_f freq j) (map Im (tmp_s freq field j)) = Some p"
    by (auto split: option.splits)
  from Cons.prems(1) p have j: "j < length acc"
    by (auto split: if_splits)
  from Cons.prems(1) p j obtain g where
    rest: "loo_loop interp freq field req js (acc[j := \<i> * of_real (p (freq ! j))], g) = Inr (fld, f2)"
    by (auto split: sum.splits)
  from Cons.prems(2) have d: "distinct js" and nj: "j \<notin> set js" by simp_all
  note ih = Cons.IH [OF rest d]
  from ih have len: "length fld = length acc" by simp
  from ih nj have atj: "fld ! j = \<i> * of_real (p (freq ! j))"
    using j by simp
  have others: "\<forall>i. i \<notin> set (j # js) \<longrightarrow> fld ! i = acc ! i"
    using ih by auto
  have inner: "\<forall>i\<in>set js. i < length acc \<and>
        (\<exists>p. interp (tmp_f freq i) (map Im (tmp_s freq field i)) = Some p \<and>
             fld ! i = \<i> * of_real (p (freq ! i)))"
    using ih by simp
  show ?case using len atj others inner p j by auto
qed

lemma loo_loop_total:
  assumes "\<forall>i\<in>set js. i < length acc \<and> interp (tmp_f freq i) (map Im (tmp_s freq field i)) \<noteq> None"
    and "\<forall>e. complete_interpol interp freq field req \<noteq> Inl e"
  shows "\<exists>r. loo_loop interp freq field req js (acc, a2) = Inr r"
  using assms(1)
proof (induction js arbitrary: acc a2)
  case Nil
  then show ?case by simp
next
  case (Cons j js)
  from Cons.prems obtain p where
    p: "interp (tmp_f freq j) (map Im (tmp_s freq field j)) = Some p" and j: "j < length acc"
    by auto
  from assms(2) obtain g where g: "complete_interpol interp freq field req = Inr g"
    by (cases "complete_interpol interp freq field req") auto
  have "\<forall>i\<in>set js. i < length (acc[j := \<i> * of_real (p (freq ! j))]) \<and>
       interp (tmp_f freq i) (map Im (tmp_s freq field i)) \<noteq> None"
    using Cons.prems by simp
  from Cons.IH [OF this] show ?case using p j g by simp
qed

lemma gnf_full_Inr:
  assumes "get_new_freq_full interp freq field rtol req = Inr out"
  shows "freq \<noteq> []" and "length field = length freq"
    and "length (i_field out) = length freq" and "length (error out) = length freq"
    and "\<forall>i<length freq. \<exists>p. interp (tmp_f freq i) (map Im (tmp_s freq field i)) = Some p \<and>
            i_field out ! i = \<i> * of_real (p (freq ! i))"
    and "\<forall>i<length freq. error out ! i =
            np_abs_div (Im (i_field out ! i) - Im (field ! i)) (Max (set (map cmod field)))"
    and "ierr out = filter (\<lambda>k. np_gt (error out ! k) rtol) [0..<length freq]"
    and "propose freq (error out) (ierr out) rtol = Inr (new_freq out)"
proof -
  from assms obtain fld f2 where
    loop: "loo_loop interp freq field req [0..<length freq] (replicate (length field) 0, None)
             = Inr (fld, f2)"
    by (auto simp: get_new_freq_full_def split: sum.splits)
  from assms loop obtain mx where mx: "py_max (map cmod field) = Inr mx"
    by (auto simp: get_new_freq_full_def split: sum.splits)
  then have ne: "field \<noteq> []" and mxv: "mx = Max (set (map cmod field))"
    by (auto simp: py_max_def split: if_splits)
  define err where "err = map2 (\<lambda>e f. np_abs_div (Im e - Im f) mx) fld field"
  from assms loop mx have len: "length err = length freq"
    by (auto simp: get_new_freq_full_def err_def Let_def split: sum.splits if_splits)
  from assms loop mx len obtain nf where
    nf: "propose freq err (filter (\<lambda>k. np_gt (err ! k) rtol) [0..<length freq]) rtol = Inr nf"
    and out: "out = \<lparr>new_freq = nf, i_field = fld, error = err,
         ierr = filter (\<lambda>k. np_gt (err ! k) rtol) [0..<length freq], i_field2 = f2\<rparr>"
    by (auto simp: get_new_freq_full_def err_def Let_def split: sum.splits if_splits)
  from loo_loop_acc [OF loop] have
    lf: "length fld = length field" and
    est: "\<forall>i<length freq. \<exists>p. interp (tmp_f freq i) (map Im (tmp_s freq field i)) = Some p \<and>
            fld ! i = \<i> * of_real (p (freq ! i))"
    by simp_all
  from len lf have lens: "length field = length freq" by (simp add: err_def)
  show "freq \<noteq> []" using ne lens by auto
  show "length field = length freq" by (fact lens)
  show "length (i_field out) = length freq" using out lf lens by simp
  show "length (error out) = length freq" using out len by simp
  show "\<forall>i<length freq. \<exists>p. interp (tmp_f freq i) (map Im (tmp_s freq field i)) = Some p \<and>
            i_field out ! i = \<i> * of_real (p (freq ! i))"
    using est out by simp
  show "\<forall>i<length freq. error out ! i =
            np_abs_div (Im (i_field out ! i) - Im (field ! i)) (Max (set (map cmod field)))"
    using out lf lens mxv by (simp add: err_def)
  show "ierr out = filter (\<lambda>k. np_gt (error out ! k) rtol) [0..<length freq]"
    using out by simp
  show "propose freq (error out) (ierr out) rtol = Inr (new_freq out)"
    using out nf by simp
qed

lemma filter_upt_first:
  assumes "filter P [0..<n] = k # ks"
  shows "k < n" and "P k" and "\<forall>j<k. \<not> P j"
proof -
  have mem: "k \<in> set (filter P [0..<n])" using assms by simp
  then show "k < n" and "P k" by simp_all
  have srt: "sorted (filter P [0..<n])" by (simp add: sorted_wrt_filter)
  show "\<forall>j<k. \<not> P j"
  proof (intro allI impI notI)
    fix j assume jk: "j < k" and pj: "P j"
    from jk \<open>k < n\<close> pj have "j \<in> set (filter P [0..<n])" by simp
    then have "j \<in> set (k # ks)" using assms by simp
    moreover have "\<forall>x\<in>set (k # ks). k \<le> x" using srt assms by auto
    ultimately show False using jk by auto
  qed
qed

lemma filter_upt_only_last:
  assumes "filter P [0..<n] = k # ks" and "Suc k = n"
  shows "ks = []"
proof -
  have d: "distinct (k # ks)" using assms(1) [symmetric] by (simp del: distinct.simps)
  have "set (k # ks) \<subseteq> {j. k \<le> j \<and> j < n}"
  proof
    fix x assume x: "x \<in> set (k # ks)"
    then have "x \<in> set (filter P [0..<n])" using assms(1) by simp
    then have "x < n" "P x" by simp_all
    moreover have "k \<le> x" using filter_upt_first(3) [OF assms(1)] \<open>P x\<close> by (meson not_le)
    ultimately show "x \<in> {j. k \<le> j \<and> j < n}" by simp
  qed
  then have "set ks \<subseteq> {k}" using assms(2) by auto
  moreover have "k \<notin> set ks" using d by simp
  ultimately show ?thesis by (cases ks) auto
qed

lemma propose_cases:
  assumes len: "length err = length freq"
    and ie: "ie = filter (\<lambda>k. np_gt (err ! k) rtol) [0..<length freq]"
  shows "propose freq err ie rtol =
     (if ie = [] then Inr []
      else if np_gt (err ! 0) rtol then Inr [10 powr (log 10 (freq ! 0) - 0.5)]
      else if np_gt (last err) rtol \<and> length ie = 1
        then Inr [10 powr (log 10 (last freq) + 0.5)]
      else Inr [10 powr (log 10 (freq ! hd ie) +
                  (log 10 (freq ! Suc (hd ie)) - log 10 (freq ! hd ie)) / 2)])"
proof (cases ie)
  case Nil
  then show ?thesis by (simp add: propose_def)
next
  case (Cons k ks)
  with ie have f: "filter (\<lambda>k. np_gt (err ! k) rtol) [0..<length freq] = k # ks" by simp
  note fst = filter_upt_first [OF f]
  have k0: "ie ! 0 = k" "hd ie = k" using Cons by simp_all
  have ne: "freq \<noteq> []" "err \<noteq> []" using fst(1) len by auto
  show ?thesis
  proof (cases "np_gt (err ! 0) rtol")
    case True
    then have "k = 0" using fst(3) by auto
    then show ?thesis using True Cons k0 fst(1) by (simp add: propose_def Let_def)
  next
    case False
    show ?thesis
    proof (cases "np_gt (last err) rtol \<and> length ie = 1")
      case True
      then have ks: "ks = []" using Cons by simp
      from True have "np_gt (err ! (length freq - 1)) rtol"
        using ne len by (simp add: last_conv_nth)
      then have "length freq - 1 \<in> set (filter (\<lambda>k. np_gt (err ! k) rtol) [0..<length freq])"
        using ne by simp
      then have "k = length freq - 1" using f ks by simp
      then have "map (log 10) freq ! k = log 10 (last freq)"
        using ne by (simp add: last_conv_nth)
      then show ?thesis using True False Cons k0 by (simp add: propose_def Let_def)
    next
      case notlast: False
      have "Suc k \<noteq> length freq"
      proof
        assume sk: "Suc k = length freq"
        from filter_upt_only_last [OF f sk] have "ks = []" .
        moreover have "length err - 1 = k" using sk len by simp
        then have "np_gt (last err) rtol"
          using fst(2) ne by (simp add: last_conv_nth)
        ultimately show False using notlast Cons by simp
      qed
      with fst(1) have sk: "Suc k < length freq" by simp
      then have "py_index (np_diff (map (log 10) freq)) k =
          Inr (log 10 (freq ! Suc k) - log 10 (freq ! k))"
        by (simp add: py_index_def np_diff_def)
      then show ?thesis using notlast False Cons k0 sk
        by (auto simp: propose_def Let_def)
    qed
  qed
qed


subsection \<open>The result of \<open>get_new_freq\<close>\<close>

lemma cmod_3_4: "cmod (Complex 3 4) = 5"
  by (simp add: cmod_def)

lemmas gnf_eval = get_new_freq_full_def tmp_f_def tmp_s_def mask_ne_def
  linear_interpolant_def py_max_def np_abs_div_def propose_def np_diff_def py_index_def
  complete_interpol_def Let_def

lemma example_peaks:
  "get_new_freq_full linear_interpolant [1, 10, 100] [Complex 3 4, 0, Complex 3 4] (1 / 20) None =
     Inr \<lparr>new_freq = [10 powr (- 1 / 2)], i_field = [0, \<i> * 4, 0],
          error = [Finite (4 / 5), Finite (4 / 5), Finite (4 / 5)], ierr = [0, 1, 2],
          i_field2 = None\<rparr>"
  by (simp add: gnf_eval cmod_3_4)

lemma gnf_new_freq:
  assumes "get_new_freq_full interp freq field rtol req = Inr out"
  shows "new_freq out =
     (if ierr out = [] then []
      else if np_gt (error out ! 0) rtol then [10 powr (log 10 (freq ! 0) - 0.5)]
      else if np_gt (last (error out)) rtol \<and> length (ierr out) = 1
        then [10 powr (log 10 (last freq) + 0.5)]
      else [10 powr (log 10 (freq ! hd (ierr out)) +
                  (log 10 (freq ! Suc (hd (ierr out))) - log 10 (freq ! hd (ierr out))) / 2)])"
proof -
  note g = gnf_full_Inr [OF assms]
  from propose_cases [OF g(4) g(7)] g(8) show ?thesis
    by (auto split: if_splits)
qed

lemma ierr_mem:
  assumes "get_new_freq_full interp freq field rtol req = Inr out"
  shows "k \<in> set (ierr out) \<longleftrightarrow> k < length freq \<and> np_gt (error out ! k) rtol"
  using gnf_full_Inr(7) [OF assms] by auto

lemma sorted_nth0_Min:
  assumes "sorted xs" and "xs \<noteq> []"
  shows "xs ! 0 = Min (set xs)"
proof -
  have "Min (set xs) = xs ! 0"
  proof (rule Min_eqI)
    show "finite (set xs)" by simp
    show "xs ! 0 \<in> set xs" using assms(2) by simp
    fix y assume "y \<in> set xs"
    then obtain j where "j < length xs" "y = xs ! j" by (auto simp: in_set_conv_nth)
    then show "xs ! 0 \<le> y" using assms(1) by (simp add: sorted_nth_mono)
  qed
  then show ?thesis by simp
qed

lemma sorted_last_Max:
  assumes "sorted xs" and "xs \<noteq> []"
  shows "last xs = Max (set xs)"
proof -
  have "Max (set xs) = last xs"
  proof (rule Max_eqI)
    show "finite (set xs)" by simp
    show "last xs \<in> set xs" using assms(2) by simp
    fix y assume "y \<in> set xs"
    then obtain j where j: "j < length xs" "y = xs ! j" by (auto simp: in_set_conv_nth)
    then have "xs ! j \<le> xs ! (length xs - 1)" using assms(1) by (intro sorted_nth_mono) auto
    then show "y \<le> last xs" using j assms(2) by (simp add: last_conv_nth)
  qed
  then show ?thesis by simp
qed

lemma sole_last_iff:
  assumes "get_new_freq_full interp freq field rtol req = Inr out"
  shows "(np_gt (last (error out)) rtol \<and> length (ierr out) = 1) \<longleftrightarrow>
         (\<forall>i<length freq. np_gt (error out ! i) rtol \<longleftrightarrow> i = length freq - 1)"
proof -
  note g = gnf_full_Inr [OF assms]
  let ?P = "\<lambda>k. np_gt (error out ! k) rtol"
  let ?n = "length freq"
  have n: "0 < ?n" using g(1) by simp
  have ne: "error out \<noteq> []" using g(4) n by auto
  have lst: "last (error out) = error out ! (?n - 1)"
    using ne g(4) by (simp add: last_conv_nth)
  have mem: "\<And>i. i \<in> set (ierr out) \<longleftrightarrow> i < ?n \<and> ?P i"
    using g(7) by auto
  have dist: "distinct (ierr out)" using g(7) by simp
  show ?thesis
  proof
    assume l: "np_gt (last (error out)) rtol \<and> length (ierr out) = 1"
    then obtain k where k: "ierr out = [k]" by (cases "ierr out") auto
    have "?n - 1 \<in> set (ierr out)" using l lst n mem by simp
    with k have kk: "k = ?n - 1" by simp
    show "\<forall>i<?n. ?P i \<longleftrightarrow> i = ?n - 1"
    proof (intro allI impI)
      fix i assume i: "i < ?n"
      have "?P i \<longleftrightarrow> i \<in> set (ierr out)" using i mem by simp
      then show "?P i \<longleftrightarrow> i = ?n - 1" using k kk by simp
    qed
  next
    assume r: "\<forall>i<?n. ?P i \<longleftrightarrow> i = ?n - 1"
    then have p: "?P (?n - 1)" using n by simp
    have "set (ierr out) = {?n - 1}"
    proof (rule set_eqI)
      fix i show "i \<in> set (ierr out) \<longleftrightarrow> i \<in> {?n - 1}"
        using mem [of i] r n by auto
    qed
    then have "card (set (ierr out)) = 1" by simp
    then have "length (ierr out) = 1" using dist by (simp add: distinct_card)
    then show "np_gt (last (error out)) rtol \<and> length (ierr out) = 1"
      using p lst by simp
  qed
qed

lemma cmod_0_4: "cmod (Complex 0 4) = 4"
  by (simp add: cmod_def)

lemma example_tail:
  "get_new_freq_full linear_interpolant [1, 10, 100] [0, 0, Complex 0 4] (1 / 2) None =
     Inr \<lparr>new_freq = [10 powr (log 10 100 + 1 / 2)], i_field = [0, \<i> * (4 / 11), 0],
          error = [Finite 0, Finite (1 / 11), Finite 1], ierr = [2],
          i_field2 = None\<rparr>"
  by (simp add: gnf_eval cmod_0_4 Complex_eq_0)

lemma example_interior:
  "get_new_freq_full linear_interpolant [1, 10, 100] [0, 0, Complex 0 4] (1 / 20) None =
     Inr \<lparr>new_freq = [10 powr (1 + (log 10 100 - 1) / 2)], i_field = [0, \<i> * (4 / 11), 0],
          error = [Finite 0, Finite (1 / 11), Finite 1], ierr = [1, 2],
          i_field2 = None\<rparr>"
  by (simp add: gnf_eval cmod_0_4 Complex_eq_0)

lemma gnf_full_total:
  assumes "freq \<noteq> []" and "length field = length freq"
    and "\<forall>i<length freq. interp (tmp_f freq i) (map Im (tmp_s freq field i)) \<noteq> None"
    and "\<forall>e. complete_interpol interp freq field req \<noteq> Inl e"
  shows "\<exists>out. get_new_freq_full interp freq field rtol req = Inr out"
proof -
  have "\<forall>i\<in>set [0..<length freq]. i < length (replicate (length field) (0::complex)) \<and>
      interp (tmp_f freq i) (map Im (tmp_s freq field i)) \<noteq> None"
    using assms(2,3) by simp
  from loo_loop_total [OF this assms(4)] obtain fld f2 where
    loop: "loo_loop interp freq field req [0..<length freq] (replicate (length field) 0, None)
             = Inr (fld, f2)"
    by fastforce
  from loo_loop_acc [OF loop] have lf: "length fld = length field" by simp
  have mx: "py_max (map cmod field) = Inr (Max (set (map cmod field)))"
    using assms(1,2) by (auto simp: py_max_def)
  define err where
    "err = map2 (\<lambda>e f. np_abs_div (Im e - Im f) (Max (set (map cmod field)))) fld field"
  have len: "length err = length freq" using lf assms(2) by (simp add: err_def)
  define ie where "ie = filter (\<lambda>k. np_gt (err ! k) rtol) [0..<length freq]"
  from propose_cases [OF len ie_def] obtain nf where
    nf: "propose freq err ie rtol = Inr nf"
    by (auto split: if_splits)
  from nf have nf': "propose freq
      (map2 (\<lambda>e f. np_abs_div (Im e - Im f) (Max (set (map cmod field)))) fld field)
      (filter (\<lambda>k. np_gt
          (map2 (\<lambda>e f. np_abs_div (Im e - Im f) (Max (set (map cmod field)))) fld field ! k)
          rtol) [0..<length freq]) rtol = Inr nf"
    unfolding ie_def err_def .
  have len': "min (length fld) (length field) = length freq" using lf assms(2) by simp
  show ?thesis
    using loop mx len' nf' by (simp add: get_new_freq_full_def Let_def)
qed

section \<open>The error estimator\<close>

text \<open>
  Claim C1, as the program has it. The relative error of sample \<open>i\<close> is the absolute
  difference between the imaginary part of the leave-one-out estimate and the
  imaginary part of the computed field, divided by the largest complex modulus
  \<open>max |field|\<close> over all current samples (not by the largest absolute imaginary
  part). The estimate is the interpolant of the leave-one-out control points,
  evaluated at the frequency of the sample.
\<close>

theorem error_normalised_by_max_modulus:
  assumes "get_new_freq_full interp freq field rtol req = Inr out" and "i < length freq"
  shows "map_option (\<lambda>p. p (freq ! i)) (interp (tmp_f freq i) (map Im (tmp_s freq field i)))
           = Some (Im (i_field out ! i)) \<and>
         error out ! i =
           np_abs_div (Im (i_field out ! i) - Im (field ! i)) (Max (set (map cmod field))) \<and>
         (Max (set (map cmod field)) \<noteq> 0 \<longrightarrow>
           error out ! i =
             Finite (\<bar>Im (i_field out ! i) - Im (field ! i)\<bar> / Max (set (map cmod field))))"
proof -
  note g = gnf_full_Inr [OF assms(1)]
  from g(5) assms(2) obtain p where
    p: "interp (tmp_f freq i) (map Im (tmp_s freq field i)) = Some p"
    and v: "i_field out ! i = \<i> * of_real (p (freq ! i))" by blast
  from p v have est: "map_option (\<lambda>p. p (freq ! i))
      (interp (tmp_f freq i) (map Im (tmp_s freq field i))) = Some (Im (i_field out ! i))"
    by simp
  from g(6) assms(2) have e: "error out ! i =
      np_abs_div (Im (i_field out ! i) - Im (field ! i)) (Max (set (map cmod field)))" by simp
  have mx: "0 \<le> Max (set (map cmod field))"
  proof -
    from g(1) g(2) have ne: "field \<noteq> []" by auto
    then have "cmod (hd field) \<in> set (map cmod field)" by (cases field) simp_all
    then have "cmod (hd field) \<le> Max (set (map cmod field))" by (intro Max_ge) simp_all
    then show ?thesis using norm_ge_zero [of "hd field"] by linarith
  qed
  have "Max (set (map cmod field)) \<noteq> 0 \<longrightarrow>
           error out ! i =
             Finite (\<bar>Im (i_field out ! i) - Im (field ! i)\<bar> / Max (set (map cmod field)))"
    using e mx by (auto simp: np_abs_div_def)
  with est e show ?thesis by blast
qed

theorem error_normalised_by_max_modulus_witness:
  "get_new_freq_full linear_interpolant [1, 10, 100] [Complex 3 4, 0, Complex 3 4] (1 / 20) None =
     Inr \<lparr>new_freq = [10 powr (- 1 / 2)], i_field = [0, \<i> * 4, 0],
          error = [Finite (4 / 5), Finite (4 / 5), Finite (4 / 5)], ierr = [0, 1, 2],
          i_field2 = None\<rparr> \<and>
   (1::nat) < length [1, 10, 100 :: real] \<and>
   Max (set (map cmod [Complex 3 4, 0, Complex 3 4])) = 5 \<and>
   Finite (4 / 5) = Finite (\<bar>4 - 0\<bar> / 5)"
  using error_normalised_by_max_modulus [OF example_peaks, of 1]
  by (simp add: cmod_3_4 example_peaks)

text \<open>
  Claim C1 as stated fails. For the frequencies 1, 10, 100 Hz with the field
  \<open>3+4i, 0, 3+4i\<close> every leave-one-out query lies between two control points of
  equal value, so the estimates are \<open>0, 4i, 0\<close>. The program reports the error
  \<open>4/5\<close> for the middle sample (the largest modulus is 5), while the stated formula
  gives \<open>4/4 = 1\<close>.
\<close>

theorem error_not_normalised_by_max_imag:
  "map_sum id error (get_new_freq_full linear_interpolant [1, 10, 100]
       [Complex 3 4, 0, Complex 3 4] (1 / 20) None)
     = Inr [Finite (4 / 5), Finite (4 / 5), Finite (4 / 5)] \<and>
   map_sum id i_field (get_new_freq_full linear_interpolant [1, 10, 100]
       [Complex 3 4, 0, Complex 3 4] (1 / 20) None) = Inr [0, \<i> * 4, 0] \<and>
   spec_rel_error [0, \<i> * 4, 0] [Complex 3 4, 0, Complex 3 4] 1 = Finite 1"
  by (simp add: example_peaks spec_rel_error_def np_abs_div_def)

section \<open>The refinement rule\<close>

text \<open>
  Claim C2. For sorted frequencies, whenever the relative error of the
  lowest-frequency sample exceeds \<open>rtol\<close>, the proposed frequency is
  \<open>10^(log10(f_min) - 0.5)\<close>, whatever the errors of the other samples are.
\<close>

theorem low_extension_has_priority:
  assumes "get_new_freq_full interp freq field rtol req = Inr out"
    and "sorted freq"
    and "np_gt (error out ! 0) rtol"
  shows "new_freq out = [10 powr (log 10 (Min (set freq)) - 0.5)]"
proof -
  note g = gnf_full_Inr [OF assms(1)]
  have "0 \<in> set (ierr out)" using ierr_mem [OF assms(1), of 0] g(1) assms(3) by simp
  then have "ierr out \<noteq> []" by auto
  then have "new_freq out = [10 powr (log 10 (freq ! 0) - 0.5)]"
    using gnf_new_freq [OF assms(1)] assms(3) by simp
  then show ?thesis using sorted_nth0_Min [OF assms(2) g(1)] by simp
qed

theorem low_extension_has_priority_witness:
  "get_new_freq_full linear_interpolant [1, 10, 100] [Complex 3 4, 0, Complex 3 4] (1 / 20) None =
     Inr \<lparr>new_freq = [10 powr (- 1 / 2)], i_field = [0, \<i> * 4, 0],
          error = [Finite (4 / 5), Finite (4 / 5), Finite (4 / 5)], ierr = [0, 1, 2],
          i_field2 = None\<rparr> \<and>
   sorted [1, 10, 100 :: real] \<and> np_gt (Finite (4 / 5)) (1 / 20) \<and>
   [10 powr (- 1 / 2)] = [10 powr (log 10 (Min (set [1, 10, 100])) - 0.5)]"
  using low_extension_has_priority [OF example_peaks]
  by (simp add: example_peaks)

text \<open>
  Claim C3. For sorted frequencies, when the highest-frequency sample is the only
  sample whose relative error exceeds \<open>rtol\<close> (so the lowest-frequency sample does
  not exceed it), the proposed frequency is \<open>10^(log10(f_max) + 0.5)\<close>.
\<close>

theorem sole_last_extends_upward:
  assumes "get_new_freq_full interp freq field rtol req = Inr out"
    and "sorted freq"
    and "\<forall>i<length freq. np_gt (error out ! i) rtol \<longleftrightarrow> i = length freq - 1"
    and "\<not> np_gt (error out ! 0) rtol"
  shows "new_freq out = [10 powr (log 10 (Max (set freq)) + 0.5)]"
proof -
  note g = gnf_full_Inr [OF assms(1)]
  from sole_last_iff [OF assms(1)] assms(3) have
    sl: "np_gt (last (error out)) rtol" "length (ierr out) = 1" by simp_all
  then have "ierr out \<noteq> []" by auto
  then have "new_freq out = [10 powr (log 10 (last freq) + 0.5)]"
    using gnf_new_freq [OF assms(1)] assms(4) sl by simp
  then show ?thesis using sorted_last_Max [OF assms(2) g(1)] by simp
qed

theorem sole_last_extends_upward_witness:
  "get_new_freq_full linear_interpolant [1, 10, 100] [0, 0, Complex 0 4] (1 / 2) None =
     Inr \<lparr>new_freq = [10 powr (log 10 100 + 1 / 2)], i_field = [0, \<i> * (4 / 11), 0],
          error = [Finite 0, Finite (1 / 11), Finite 1], ierr = [2],
          i_field2 = None\<rparr> \<and>
   sorted [1, 10, 100 :: real] \<and>
   \<not> np_gt (Finite 0) (1 / 2) \<and> \<not> np_gt (Finite (1 / 11)) (1 / 2) \<and> np_gt (Finite 1) (1 / 2) \<and>
   [10 powr (log 10 100 + 1 / 2)] = [10 powr (log 10 (Max (set [1, 10, 100])) + 0.5)]"
proof -
  have only: "\<forall>i<length [1, 10, 100 :: real].
      np_gt ([Finite 0, Finite (1 / 11), Finite 1] ! i) (1 / 2) \<longleftrightarrow> i = length [1, 10, 100 :: real] - 1"
    by (simp add: less_Suc_eq numeral_3_eq_3)
  show ?thesis
    using sole_last_extends_upward [OF example_tail] only
    by (simp add: example_tail)
qed

text \<open>
  Claim C4. When some sample fails, the lowest-frequency sample does not, and the
  highest-frequency sample is not the only failing one, the rule takes the first
  failing index \<open>k\<close>, which has a next neighbour, and proposes the midpoint of
  \<open>f_k\<close> and \<open>f_(k+1)\<close> in log10 space, \<open>10^((log10 f_k + log10 f_(k+1)) / 2)\<close>.
\<close>

theorem interior_bisection:
  assumes "get_new_freq_full interp freq field rtol req = Inr out"
    and "\<exists>i<length freq. np_gt (error out ! i) rtol"
    and "\<not> np_gt (error out ! 0) rtol"
    and "\<not> (\<forall>i<length freq. np_gt (error out ! i) rtol \<longleftrightarrow> i = length freq - 1)"
  shows "\<exists>k. Suc k < length freq \<and> np_gt (error out ! k) rtol \<and>
             (\<forall>j<k. \<not> np_gt (error out ! j) rtol) \<and>
             new_freq out = [10 powr ((log 10 (freq ! k) + log 10 (freq ! Suc k)) / 2)]"
proof -
  note g = gnf_full_Inr [OF assms(1)]
  from assms(2) ierr_mem [OF assms(1)] have ne: "ierr out \<noteq> []" by fastforce
  then obtain k ks where kks: "ierr out = k # ks" by (cases "ierr out") auto
  with g(7) have f: "filter (\<lambda>k. np_gt (error out ! k) rtol) [0..<length freq] = k # ks"
    by simp
  note fst = filter_upt_first [OF f]
  from sole_last_iff [OF assms(1)] assms(4) have
    nsl: "\<not> (np_gt (last (error out)) rtol \<and> length (ierr out) = 1)" by simp
  have nf: "new_freq out = [10 powr (log 10 (freq ! k) +
       (log 10 (freq ! Suc k) - log 10 (freq ! k)) / 2)]"
    using gnf_new_freq [OF assms(1)] ne assms(3) nsl kks by auto
  have "Suc k \<noteq> length freq"
  proof
    assume sk: "Suc k = length freq"
    from filter_upt_only_last [OF f sk] have "ks = []" .
    moreover have "error out \<noteq> []" using g(4) g(1) by auto
    moreover have "length (error out) - 1 = k" using sk g(4) by simp
    ultimately have "last (error out) = error out ! k" by (simp add: last_conv_nth)
    moreover note \<open>ks = []\<close>
    ultimately show False using nsl fst(2) kks by simp
  qed
  with fst(1) have sk: "Suc k < length freq" by simp
  have "log 10 (freq ! k) + (log 10 (freq ! Suc k) - log 10 (freq ! k)) / 2 =
        (log 10 (freq ! k) + log 10 (freq ! Suc k)) / 2"
    by (simp add: field_simps)
  with nf sk fst show ?thesis by auto
qed


theorem interior_bisection_witness:
  "get_new_freq_full linear_interpolant [1, 10, 100] [0, 0, Complex 0 4] (1 / 20) None =
     Inr \<lparr>new_freq = [10 powr (1 + (log 10 100 - 1) / 2)], i_field = [0, \<i> * (4 / 11), 0],
          error = [Finite 0, Finite (1 / 11), Finite 1], ierr = [1, 2],
          i_field2 = None\<rparr> \<and>
   \<not> np_gt (Finite 0) (1 / 20) \<and> np_gt (Finite (1 / 11)) (1 / 20) \<and> np_gt (Finite 1) (1 / 20) \<and>
   (\<exists>k. Suc k < length [1, 10, 100 :: real] \<and>
        np_gt ([Finite 0, Finite (1 / 11), Finite 1] ! k) (1 / 20) \<and>
        (\<forall>j<k. \<not> np_gt ([Finite 0, Finite (1 / 11), Finite 1] ! j) (1 / 20)) \<and>
        [10 powr (1 + (log 10 100 - 1) / 2)] =
          [10 powr ((log 10 ([1, 10, 100] ! k) + log 10 ([1, 10, 100] ! Suc k)) / 2)])"
proof -
  let ?e = "[Finite 0, Finite (1 / 11), Finite 1]"
  have some: "\<exists>i<length [1, 10, 100 :: real]. np_gt (?e ! i) (1 / 20)"
    by (rule exI [of _ 1]) simp
  have first: "\<not> np_gt (?e ! 0) (1 / 20)" by simp
  have notsole: "\<not> (\<forall>i<length [1, 10, 100 :: real].
      np_gt (?e ! i) (1 / 20) \<longleftrightarrow> i = length [1, 10, 100 :: real] - 1)"
  proof
    assume "\<forall>i<length [1, 10, 100 :: real].
      np_gt (?e ! i) (1 / 20) \<longleftrightarrow> i = length [1, 10, 100 :: real] - 1"
    moreover have "(1::nat) < length [1, 10, 100 :: real]" by simp
    ultimately have "np_gt (?e ! 1) (1 / 20) \<longleftrightarrow> (1::nat) = length [1, 10, 100 :: real] - 1"
      by blast
    then show False by simp
  qed
  show ?thesis
    using interior_bisection [OF example_interior] some first notsole
    by (simp add: example_interior)
qed

lemma gnf_full_deterministic:
  assumes a: "get_new_freq_full interp freq field rtol req = Inr out"
    and b: "get_new_freq_full interp freq field rtol req' = Inr out'"
  shows "new_freq out' = new_freq out \<and> i_field out' = i_field out \<and>
         error out' = error out \<and> ierr out' = ierr out"
proof -
  note g = gnf_full_Inr [OF a]
  note h = gnf_full_Inr [OF b]
  have fld: "i_field out' = i_field out"
  proof (rule nth_equalityI)
    show "length (i_field out') = length (i_field out)" using g(3) h(3) by simp
    fix i assume "i < length (i_field out')"
    then have i: "i < length freq" using h(3) by simp
    from g(5) h(5) i show "i_field out' ! i = i_field out ! i" by fastforce
  qed
  have err: "error out' = error out"
  proof (rule nth_equalityI)
    show "length (error out') = length (error out)" using g(4) h(4) by simp
    fix i assume "i < length (error out')"
    then have i: "i < length freq" using h(4) by simp
    from g(6) h(6) i fld show "error out' ! i = error out ! i" by simp
  qed
  have ie: "ierr out' = ierr out" using g(7) h(7) err by simp
  have "new_freq out' = new_freq out"
    using gnf_new_freq [OF a] gnf_new_freq [OF b] err ie by simp
  with fld err ie show ?thesis by simp
qed

text \<open>
  Claim C5, as the program has it. On a non-empty sample set whose leave-one-out
  interpolations succeed the call returns, and it proposes at most one frequency:
  none exactly when the set of failing indices is empty, that is, when no relative
  error exceeds \<open>rtol\<close>. When the field is not identically zero this is the case
  exactly when every error is at most \<open>rtol\<close>; for an all-zero field the errors are
  \<open>nan\<close> or \<open>inf\<close> and the two differ. A repeated call on the same sample set returns
  the same proposal and the same errors, also when it asks for the complete
  interpolation.
\<close>

theorem at_most_one_proposal:
  assumes "freq \<noteq> []" and "length field = length freq"
    and "\<forall>i<length freq. interp (tmp_f freq i) (map Im (tmp_s freq field i)) \<noteq> None"
  shows "\<exists>out. get_new_freq_full interp freq field rtol None = Inr out \<and>
           get_new_freq interp freq field rtol = Inr (new_freq out) \<and>
           length (new_freq out) \<le> 1 \<and>
           (new_freq out = [] \<longleftrightarrow> ierr out = []) \<and>
           (ierr out = [] \<longleftrightarrow> (\<forall>i<length freq. \<not> np_gt (error out ! i) rtol)) \<and>
           (Max (set (map cmod field)) \<noteq> 0 \<longrightarrow>
              (new_freq out = [] \<longleftrightarrow> (\<forall>i<length freq. np_le (error out ! i) rtol))) \<and>
           (\<forall>req out'. get_new_freq_full interp freq field rtol req = Inr out' \<longrightarrow>
              new_freq out' = new_freq out \<and> error out' = error out)"
proof -
  have "\<forall>e. complete_interpol interp freq field None \<noteq> Inl e"
    by (simp add: complete_interpol_def)
  from gnf_full_total [OF assms this] obtain out where
    out: "get_new_freq_full interp freq field rtol None = Inr out" by blast
  note g = gnf_full_Inr [OF out]
  have a: "get_new_freq interp freq field rtol = Inr (new_freq out)"
    using out by (simp add: get_new_freq_def)
  have nf: "length (new_freq out) \<le> 1 \<and> (new_freq out = [] \<longleftrightarrow> ierr out = [])"
    using gnf_new_freq [OF out] by simp
  have ie: "ierr out = [] \<longleftrightarrow> (\<forall>i<length freq. \<not> np_gt (error out ! i) rtol)"
    using g(7) by (auto simp: filter_empty_conv)
  have fin: "Max (set (map cmod field)) \<noteq> 0 \<longrightarrow>
      (new_freq out = [] \<longleftrightarrow> (\<forall>i<length freq. np_le (error out ! i) rtol))"
  proof
    assume mx: "Max (set (map cmod field)) \<noteq> 0"
    have pt: "(\<not> np_gt (error out ! i) rtol) \<longleftrightarrow> np_le (error out ! i) rtol"
      if "i < length freq" for i
    proof -
      from g(6) mx that obtain e where "error out ! i = Finite e"
        by (simp add: np_abs_div_def)
      then show ?thesis by (auto simp: not_less)
    qed
    then have "(\<forall>i<length freq. \<not> np_gt (error out ! i) rtol) \<longleftrightarrow>
        (\<forall>i<length freq. np_le (error out ! i) rtol)"
      by blast
    with nf ie show "new_freq out = [] \<longleftrightarrow> (\<forall>i<length freq. np_le (error out ! i) rtol)"
      by simp
  qed
  have rep: "\<forall>req out'. get_new_freq_full interp freq field rtol req = Inr out' \<longrightarrow>
      new_freq out' = new_freq out \<and> error out' = error out"
    using gnf_full_deterministic [OF out] by blast
  from out a nf ie fin rep show ?thesis by blast
qed

theorem at_most_one_proposal_witness:
  "[1, 10, 100 :: real] \<noteq> [] \<and>
   length [Complex 3 4, 0, Complex 3 4] = length [1, 10, 100 :: real] \<and>
   get_new_freq linear_interpolant [1, 10, 100] [Complex 3 4, 0, Complex 3 4] (1 / 20)
     = Inr [10 powr (- 1 / 2)] \<and>
   length [10 powr (- 1 / 2) :: real] \<le> 1 \<and>
   Max (set (map cmod [Complex 3 4, 0, Complex 3 4])) = 5 \<and>
   \<not> np_le (Finite (4 / 5)) (1 / 20)"
proof -
  have ok: "\<forall>i<length [1, 10, 100 :: real].
      linear_interpolant (tmp_f [1, 10, 100] i)
        (map Im (tmp_s [1, 10, 100] [Complex 3 4, 0, Complex 3 4] i)) \<noteq> None"
    by (simp add: less_Suc_eq numeral_3_eq_3 tmp_f_def tmp_s_def mask_ne_def
        linear_interpolant_def)
  show ?thesis
    using at_most_one_proposal [of "[1, 10, 100]" "[Complex 3 4, 0, Complex 3 4]"
        linear_interpolant "1 / 20", OF _ _ ok]
    by (simp add: example_peaks cmod_3_4)
qed

text \<open>
  Claim C5 as stated fails for an all-zero field. For the frequencies 1 and 10 Hz
  with a zero field nothing is proposed, although the two relative errors are \<open>nan\<close>
  and so not at most \<open>rtol\<close>.
\<close>

theorem no_proposal_without_small_errors:
  "get_new_freq linear_interpolant [1, 10] [0, 0] (1 / 20) = Inr [] \<and>
   map_sum id error (get_new_freq_full linear_interpolant [1, 10] [0, 0] (1 / 20) None)
     = Inr [NaN, NaN] \<and>
   \<not> np_le NaN (1 / 20)"
  by (simp add: gnf_eval get_new_freq_def)

section \<open>The leave-one-out control points\<close>

lemma filter_ne_upt:
  assumes "i < n"
  shows "filter (\<lambda>j. j \<noteq> i) [0..<n] = [0..<i] @ [Suc i..<n]"
proof -
  have "[0..<n] = [0..<i] @ [i..<n]"
    using assms upt_add_eq_append [of 0 i "n - i"] by simp
  also have "[i..<n] = i # [Suc i..<n]" using assms by (simp add: upt_conv_Cons)
  finally have "[0..<n] = [0..<i] @ i # [Suc i..<n]" .
  moreover have "filter (\<lambda>j. j \<noteq> i) [0..<i] = [0..<i]" by (simp add: filter_id_conv)
  moreover have "filter (\<lambda>j. j \<noteq> i) [Suc i..<n] = [Suc i..<n]" by (simp add: filter_id_conv)
  ultimately show ?thesis by simp
qed

lemma mask_ne_take_drop:
  assumes "i < length xs"
  shows "mask_ne xs i = take i xs @ drop (Suc i) xs"
proof -
  have "take i xs = take i (map (\<lambda>j. xs ! j) [0..<length xs])" by (simp add: map_nth)
  also have "\<dots> = map (\<lambda>j. xs ! j) [0..<i]" using assms by (simp add: take_map)
  finally have t: "take i xs = map (\<lambda>j. xs ! j) [0..<i]" .
  have "drop (Suc i) xs = drop (Suc i) (map (\<lambda>j. xs ! j) [0..<length xs])"
    by (simp add: map_nth)
  also have "\<dots> = map (\<lambda>j. xs ! j) [Suc i..<length xs]" by (simp add: drop_map)
  finally have d: "drop (Suc i) xs = map (\<lambda>j. xs ! j) [Suc i..<length xs]" .
  show ?thesis using filter_ne_upt [OF assms] t d by (simp add: mask_ne_def)
qed

text \<open>
  Claim C6. The control points of the leave-one-out interpolation for sample \<open>i\<close>
  are the samples without sample \<open>i\<close>, preceded by a zero anchor at 1e-100 Hz and
  followed by a zero anchor at 1e4 Hz exactly when the largest sampled frequency is
  below 1e4 Hz and by a zero anchor at 1e100 Hz. The estimate of sample \<open>i\<close> is the
  interpolant of these points at its frequency; the anchors are not scored, so the
  estimate and error vectors have one entry per sample.
\<close>

theorem leave_one_out_control_points:
  assumes "get_new_freq_full interp freq field rtol req = Inr out" and "i < length freq"
  shows "zip (tmp_f freq i) (map Im (tmp_s freq field i)) =
           [(1 / 10 ^ 100, 0)] @
           (take i (zip freq (map Im field)) @ drop (Suc i) (zip freq (map Im field))) @
           (if Max (set freq) < 10 ^ 4 then [(10 ^ 4, 0)] else []) @ [(10 ^ 100, 0)] \<and>
         map_option (\<lambda>p. p (freq ! i)) (interp (tmp_f freq i) (map Im (tmp_s freq field i)))
           = Some (Im (i_field out ! i)) \<and>
         length (i_field out) = length freq \<and> length (error out) = length freq"
proof -
  note g = gnf_full_Inr [OF assms(1)]
  from assms(2) g(2) have i: "i < length field" by simp
  have lens: "length (take i freq @ drop (Suc i) freq) =
      length (map Im (take i field @ drop (Suc i) field))"
    using g(2) by simp
  have mid: "zip (take i freq @ drop (Suc i) freq) (map Im (take i field @ drop (Suc i) field)) =
      take i (zip freq (map Im field)) @ drop (Suc i) (zip freq (map Im field))"
    using g(2) by (simp add: take_zip drop_zip take_map drop_map)
  have z: "zip (tmp_f freq i) (map Im (tmp_s freq field i)) =
           [(1 / 10 ^ 100, 0)] @
           (take i (zip freq (map Im field)) @ drop (Suc i) (zip freq (map Im field))) @
           (if Max (set freq) < 10 ^ 4 then [(10 ^ 4, 0)] else []) @ [(10 ^ 100, 0)]"
    using lens mid
    by (simp add: tmp_f_def tmp_s_def mask_ne_take_drop [OF assms(2)] mask_ne_take_drop [OF i])
  from g(5) assms(2) obtain p where
    p: "interp (tmp_f freq i) (map Im (tmp_s freq field i)) = Some p"
    and v: "i_field out ! i = \<i> * of_real (p (freq ! i))" by blast
  from p v have est: "map_option (\<lambda>p. p (freq ! i))
      (interp (tmp_f freq i) (map Im (tmp_s freq field i))) = Some (Im (i_field out ! i))"
    by simp
  from z est g(3) g(4) show ?thesis by blast
qed

theorem leave_one_out_control_points_witness:
  "get_new_freq_full linear_interpolant [1, 10, 100] [0, 0, Complex 0 4] (1 / 2) None =
     Inr \<lparr>new_freq = [10 powr (log 10 100 + 1 / 2)], i_field = [0, \<i> * (4 / 11), 0],
          error = [Finite 0, Finite (1 / 11), Finite 1], ierr = [2],
          i_field2 = None\<rparr> \<and>
   (1::nat) < length [1, 10, 100 :: real] \<and>
   zip (tmp_f [1, 10, 100] 1) (map Im (tmp_s [1, 10, 100] [0, 0, Complex 0 4] 1)) =
     [(1 / 10 ^ 100, 0), (1, 0), (100, 4), (10 ^ 4, 0), (10 ^ 100, 0)] \<and>
   length [Finite 0, Finite (1 / 11), Finite 1] = length [1, 10, 100 :: real]"
  using leave_one_out_control_points [OF example_tail, of 1]
  by (simp add: example_tail)


section \<open>The degenerate field\<close>

lemma example_zero:
  "get_new_freq_full linear_interpolant [1, 10] [0, 0] (1 / 20) None =
     Inr \<lparr>new_freq = [], i_field = [0, 0], error = [NaN, NaN], ierr = [], i_field2 = None\<rparr>"
  by (simp add: gnf_eval)

text \<open>
  Claim C7, as the program has it. An all-zero field raises nothing. The largest
  modulus is zero, and the division of line 597 yields \<open>nan\<close> where the estimate is
  zero as well and \<open>inf\<close> elsewhere. A \<open>nan\<close> never exceeds \<open>rtol\<close>, so when all
  estimates are zero (as for every interpolant of zero data) no frequency is
  proposed and the sample set counts as converged.
\<close>

theorem zero_field_returns_nonfinite_errors:
  assumes "freq \<noteq> []" and "length field = length freq"
    and "\<forall>z\<in>set field. z = 0"
    and "\<forall>i<length freq. interp (tmp_f freq i) (map Im (tmp_s freq field i)) \<noteq> None"
  shows "\<exists>out. get_new_freq_full interp freq field rtol None = Inr out \<and>
           (\<forall>i<length freq.
              error out ! i = (if Im (i_field out ! i) = 0 then NaN else PosInf)) \<and>
           ((\<forall>i<length freq. Im (i_field out ! i) = 0) \<longrightarrow> new_freq out = [])"
proof -
  have "\<forall>e. complete_interpol interp freq field None \<noteq> Inl e"
    by (simp add: complete_interpol_def)
  from gnf_full_total [OF assms(1,2,4) this] obtain out where
    out: "get_new_freq_full interp freq field rtol None = Inr out" by blast
  note g = gnf_full_Inr [OF out]
  have ne: "field \<noteq> []" using assms(1,2) by auto
  have "set (map cmod field) = {0}"
  proof -
    have "set field = {0}" using assms(3) ne by (cases field) auto
    then show ?thesis by simp
  qed
  then have mx: "Max (set (map cmod field)) = 0" by simp
  have z: "\<forall>i<length freq. field ! i = 0" using assms(2,3) by simp
  have err: "\<forall>i<length freq.
      error out ! i = (if Im (i_field out ! i) = 0 then NaN else PosInf)"
    using g(6) mx z by (simp add: np_abs_div_def)
  have "new_freq out = []" if all: "\<forall>i<length freq. Im (i_field out ! i) = 0"
  proof -
    from err all have "\<forall>i<length freq. \<not> np_gt (error out ! i) rtol" by simp
    then have "ierr out = []" using g(7) by (simp add: filter_empty_conv)
    then show ?thesis using gnf_new_freq [OF out] by simp
  qed
  with out err show ?thesis by blast
qed

theorem zero_field_returns_nonfinite_errors_witness:
  "[1, 10 :: real] \<noteq> [] \<and> length [0, 0 :: complex] = length [1, 10 :: real] \<and>
   set [0, 0 :: complex] = {0} \<and>
   get_new_freq_full linear_interpolant [1, 10] [0, 0] (1 / 20) None =
     Inr \<lparr>new_freq = [], i_field = [0, 0], error = [NaN, NaN], ierr = [], i_field2 = None\<rparr>"
proof -
  have ok: "\<forall>i<length [1, 10 :: real].
      linear_interpolant (tmp_f [1, 10] i) (map Im (tmp_s [1, 10] [0, 0] i)) \<noteq> None"
    by (simp add: less_Suc_eq numeral_2_eq_2 tmp_f_def tmp_s_def mask_ne_def
        linear_interpolant_def)
  show ?thesis
    using zero_field_returns_nonfinite_errors [of "[1, 10]" "[0, 0]" linear_interpolant "1 / 20",
        OF _ _ _ ok]
    by (simp add: example_zero)
qed

text \<open>
  Claim C7 as stated fails: for the frequencies 1 and 10 Hz with a zero field the
  call returns the error vector \<open>nan, nan\<close> and an empty proposal.
\<close>

theorem zero_field_does_not_raise:
  "get_new_freq_full linear_interpolant [1, 10] [0, 0] (1 / 20) None =
     Inr \<lparr>new_freq = [], i_field = [0, 0], error = [NaN, NaN], ierr = [], i_field2 = None\<rparr> \<and>
   get_new_freq linear_interpolant [1, 10] [0, 0] (1 / 20) = Inr []"
  by (simp add: example_zero get_new_freq_def)

section \<open>The refinement loop\<close>

lemma example_first_pass_gnf:
  "get_new_freq_full linear_interpolant [1, 10] [1, 1] (1 / 20) (Some [5]) =
     Inr \<lparr>new_freq = [], i_field = [0, 0], error = [Finite 0, Finite 0], ierr = [],
          i_field2 = Some [0]\<rparr>"
  by (simp add: gnf_eval tmp_f2_def tmp_s2_def)

lemma example_first_pass:
  "loop_body example_collab (1 / 20) [0] (init_state [1, 10] [5] [0]) =
     Inr \<lparr>cur_freq = [1, 10], cur_fEM = [1, 1], cur_new_freq = [], cur_req_freq = [5],
          cur_sfEM = [1], cur_tEM = []\<rparr>"
  by (simp add: loop_body_def init_state_def example_collab_def np_unique_def
      example_first_pass_gnf freq_ramp_def fEM_ramp_def py_last_def np_diff_def
      itmp_f_def itmp_s_def rtmp_f_def rtmp_s_def pchip_interpolate_def
      linear_interpolant_def Let_def)

lemma loop_body_Inr:
  assumes "loop_body C rtol ri st = Inr st'"
  shows "cur_freq st' = fst (np_unique (cur_freq st @ cur_new_freq st))"
    and "take_idx (cur_fEM st @ dipole C (cur_new_freq st))
           (snd (np_unique (cur_freq st @ cur_new_freq st))) = Inr (cur_fEM st')"
    and "\<exists>out. get_new_freq_full (pchip C) (cur_freq st') (cur_fEM st') rtol
                  (Some (cur_req_freq st)) = Inr out \<and> cur_new_freq st' = new_freq out"
    and "\<exists>framp ramp ip rp.
           freq_ramp (map (log 10) (cur_freq st')) = Inr framp \<and>
           fEM_ramp (cur_fEM st') = Inr ramp \<and>
           pchip C (itmp_f (cur_freq st') framp) (itmp_s (cur_fEM st') ramp) = Some ip \<and>
           pchip C (rtmp_f (cur_freq st') framp) (rtmp_s (cur_fEM st') ramp) = Some rp \<and>
           take_idx (map2 (\<lambda>r i. of_real r + \<i> * of_real i)
                       (map rp (cur_req_freq st)) (map ip (cur_req_freq st))) ri
             = Inr (cur_sfEM st')"
proof -
  obtain freq ai where u: "np_unique (cur_freq st @ cur_new_freq st) = (freq, ai)"
    by (cases "np_unique (cur_freq st @ cur_new_freq st)")
  from assms u obtain fEM where
    t: "take_idx (cur_fEM st @ dipole C (cur_new_freq st)) ai = Inr fEM"
    by (auto simp: loop_body_def Let_def split: sum.splits)
  from assms u t obtain out where
    g: "get_new_freq_full (pchip C) freq fEM rtol (Some (cur_req_freq st)) = Inr out"
    by (auto simp: loop_body_def Let_def split: sum.splits)
  from assms u t g obtain framp where
    fr: "freq_ramp (map (log 10) freq) = Inr framp"
    by (auto simp: loop_body_def Let_def split: sum.splits)
  from assms u t g fr obtain ramp where
    rm: "fEM_ramp fEM = Inr ramp"
    by (auto simp: loop_body_def Let_def split: sum.splits)
  from assms u t g fr rm obtain isf where
    i: "pchip_interpolate (pchip C) (itmp_f freq framp) (itmp_s fEM ramp) (cur_req_freq st)
          = Inr isf"
    by (auto simp: loop_body_def Let_def split: sum.splits)
  from assms u t g fr rm i obtain rsf where
    r: "pchip_interpolate (pchip C) (rtmp_f freq framp) (rtmp_s fEM ramp) (cur_req_freq st)
          = Inr rsf"
    by (auto simp: loop_body_def Let_def split: sum.splits)
  from assms u t g fr rm i r obtain rq where
    q: "take_idx (cur_req_freq st) ri = Inr rq"
    by (auto simp: loop_body_def Let_def split: sum.splits)
  from assms u t g fr rm i r q obtain sf where
    s: "take_idx (map2 (\<lambda>r i. of_real r + \<i> * of_real i) rsf isf) ri = Inr sf"
    by (auto simp: loop_body_def Let_def split: sum.splits)
  from assms u t g fr rm i r q s have
    st': "st' = \<lparr>cur_freq = freq, cur_fEM = fEM, cur_new_freq = new_freq out,
               cur_req_freq = rq, cur_sfEM = sf, cur_tEM = tem C sf rq\<rparr>"
    by (simp add: loop_body_def Let_def)
  from i obtain ip where ip: "pchip C (itmp_f freq framp) (itmp_s fEM ramp) = Some ip"
    and isf: "isf = map ip (cur_req_freq st)"
    by (auto simp: pchip_interpolate_def split: option.splits)
  from r obtain rp where rp: "pchip C (rtmp_f freq framp) (rtmp_s fEM ramp) = Some rp"
    and rsf: "rsf = map rp (cur_req_freq st)"
    by (auto simp: pchip_interpolate_def split: option.splits)
  show "cur_freq st' = fst (np_unique (cur_freq st @ cur_new_freq st))"
    using st' u by simp
  show "take_idx (cur_fEM st @ dipole C (cur_new_freq st))
           (snd (np_unique (cur_freq st @ cur_new_freq st))) = Inr (cur_fEM st')"
    using st' u t by simp
  show "\<exists>out. get_new_freq_full (pchip C) (cur_freq st') (cur_fEM st') rtol
                  (Some (cur_req_freq st)) = Inr out \<and> cur_new_freq st' = new_freq out"
    using st' g by simp
  show "\<exists>framp ramp ip rp.
           freq_ramp (map (log 10) (cur_freq st')) = Inr framp \<and>
           fEM_ramp (cur_fEM st') = Inr ramp \<and>
           pchip C (itmp_f (cur_freq st') framp) (itmp_s (cur_fEM st') ramp) = Some ip \<and>
           pchip C (rtmp_f (cur_freq st') framp) (rtmp_s (cur_fEM st') ramp) = Some rp \<and>
           take_idx (map2 (\<lambda>r i. of_real r + \<i> * of_real i)
                       (map rp (cur_req_freq st)) (map ip (cur_req_freq st))) ri
             = Inr (cur_sfEM st')"
    using st' fr rm ip rp s isf rsf by auto
qed

lemma freq_ramp_Inr:
  assumes "freq_ramp (map (log 10) freq) = Inr framp"
  shows "2 \<le> length freq"
    and "framp = map (\<lambda>k. 10 powr (log 10 (last freq) +
             real k * (log 10 (last freq) - log 10 (freq ! (length freq - 2))))) [1, 2, 3]"
proof -
  let ?n = "length freq"
  let ?l = "map (log 10) freq"
  from assms have ne: "freq \<noteq> []"
    by (auto simp: freq_ramp_def py_last_def split: if_splits)
  from assms ne have len: "length (np_diff (drop (?n - 2) ?l)) = 1"
    by (auto simp: freq_ramp_def py_last_def Let_def split: if_splits)
  then have "?n - (?n - 2) - 1 = 1" by (simp add: np_diff_def)
  then show n2: "2 \<le> ?n" by arith
  have d0: "np_diff (drop (?n - 2) ?l) ! 0 = log 10 (last freq) - log 10 (freq ! (?n - 2))"
  proof -
    have "np_diff (drop (?n - 2) ?l) ! 0 = drop (?n - 2) ?l ! Suc 0 - drop (?n - 2) ?l ! 0"
      using len by (simp add: np_diff_def)
    also have "drop (?n - 2) ?l ! Suc 0 = ?l ! (?n - 1)"
      using n2 by (simp add: Suc_diff_Suc numeral_2_eq_2)
    also have "drop (?n - 2) ?l ! 0 = ?l ! (?n - 2)" using n2 by simp
    finally show ?thesis using ne n2 by (simp add: last_conv_nth)
  qed
  have "last ?l = log 10 (last freq)" using ne by (simp add: last_map)
  with assms ne len d0 show "framp = map (\<lambda>k. 10 powr (log 10 (last freq) +
             real k * (log 10 (last freq) - log 10 (freq ! (length freq - 2))))) [1, 2, 3]"
    by (auto simp: freq_ramp_def py_last_def Let_def split: if_splits)
qed

lemma fEM_ramp_Inr:
  assumes "fEM_ramp fEM = Inr ramp"
  shows "fEM \<noteq> []"
    and "map Im ramp = [0.75 * Im (last fEM), 0.5 * Im (last fEM), 0.25 * Im (last fEM)]"
    and "map Re ramp = [0.75 * Re (last fEM), 0.5 * Re (last fEM), 0.25 * Re (last fEM)]"
  using assms by (auto simp: fEM_ramp_def py_last_def split: if_splits)

lemma combine_parts:
  "map2 (\<lambda>r i. of_real r + \<i> * of_real i) (map rp xs) (map ip xs) =
     map (\<lambda>x. Complex (rp x) (ip x)) xs"
  by (induction xs) (simp_all add: complex_eq_iff)

lemma np_unique_sorted: "sorted_wrt (<) (fst (np_unique xs))"
  by (simp add: np_unique_def Let_def strict_sorted_iff)

lemma np_unique_set: "set (fst (np_unique xs)) = set xs"
  by (simp add: np_unique_def Let_def)

lemma np_unique_length: "length (fst (np_unique xs)) = card (set xs)"
  by (simp add: np_unique_def Let_def length_remdups_card_conv)

lemma np_unique_index:
  "snd (np_unique xs) = map (first_index xs) (fst (np_unique xs))"
  by (simp add: np_unique_def Let_def)

lemma first_index_nth:
  "v \<in> set xs \<Longrightarrow> first_index xs v < length xs \<and> xs ! first_index xs v = v"
  by (induction xs) auto

lemma take_idx_Inr:
  "take_idx xs ks = Inr ys \<Longrightarrow>
     length ys = length ks \<and> (\<forall>j<length ks. ks ! j < length xs \<and> ys ! j = xs ! (ks ! j))"
proof (induction ks arbitrary: ys)
  case Nil
  then show ?case by simp
next
  case (Cons k ks)
  from Cons.prems obtain zs where k: "k < length xs" and zs: "take_idx xs ks = Inr zs"
    and ys: "ys = xs ! k # zs"
    by (auto split: if_splits sum.splits)
  from Cons.IH [OF zs] have ih: "length zs = length ks"
    "\<forall>j<length ks. ks ! j < length xs \<and> zs ! j = xs ! (ks ! j)" by simp_all
  show ?case
  proof (intro conjI allI impI)
    show "length ys = length (k # ks)" using ys ih(1) by simp
  next
    fix j assume "j < length (k # ks)"
    then show "(k # ks) ! j < length xs" using k ih(2) by (cases j) simp_all
  next
    fix j assume "j < length (k # ks)"
    then show "ys ! j = xs ! ((k # ks) ! j)" using ys ih(2) by (cases j) simp_all
  qed
qed

lemma merge_growth:
  assumes "distinct (xs :: real list)"
  shows "length xs \<le> length (fst (np_unique (xs @ ys)))"
    and "length (fst (np_unique (xs @ ys))) \<le> length xs + length ys"
proof -
  have "card (set xs) \<le> card (set (xs @ ys))" by (intro card_mono) auto
  then show "length xs \<le> length (fst (np_unique (xs @ ys)))"
    using assms by (simp add: np_unique_length distinct_card)
  have "card (set (xs @ ys)) \<le> length (xs @ ys)" by (rule card_length)
  then show "length (fst (np_unique (xs @ ys))) \<le> length xs + length ys"
    by (simp add: np_unique_length)
qed

lemma merge_aligned:
  assumes "take_idx (es @ ds) (snd (np_unique (xs @ ys))) = Inr es'"
    and "length es = length xs"
  shows "length es' = length (fst (np_unique (xs @ ys)))"
    and "set (zip (fst (np_unique (xs @ ys))) es') \<subseteq> set (zip xs es) \<union> set (zip ys ds)"
proof -
  let ?fs = "fst (np_unique (xs @ ys))"
  note t = take_idx_Inr [OF assms(1)]
  from t show len: "length es' = length ?fs" by (simp add: np_unique_index)
  show "set (zip ?fs es') \<subseteq> set (zip xs es) \<union> set (zip ys ds)"
  proof
    fix p assume "p \<in> set (zip ?fs es')"
    then obtain j where j: "j < length ?fs" and p: "p = (?fs ! j, es' ! j)"
      using len by (auto simp: set_zip)
    let ?a = "first_index (xs @ ys) (?fs ! j)"
    have "?fs ! j \<in> set (xs @ ys)" using j np_unique_set [of "xs @ ys"] nth_mem by blast
    from first_index_nth [OF this] have a: "?a < length (xs @ ys)" "(xs @ ys) ! ?a = ?fs ! j"
      by simp_all
    from t j have b: "?a < length (es @ ds)" "es' ! j = (es @ ds) ! ?a"
      by (simp_all add: np_unique_index)
    have pa: "p = zip (xs @ ys) (es @ ds) ! ?a" using p a b by simp
    have "?a < length (zip (xs @ ys) (es @ ds))" using a(1) b(1) by simp
    then have "zip (xs @ ys) (es @ ds) ! ?a \<in> set (zip (xs @ ys) (es @ ds))"
      by (rule nth_mem)
    with pa have "p \<in> set (zip (xs @ ys) (es @ ds))" by simp
    then show "p \<in> set (zip xs es) \<union> set (zip ys ds)" using assms(2) by simp
  qed
qed

text \<open>
  Claim C9. In every pass of the loop that completes, with \<open>F\<close> and \<open>E\<close> the merged
  frequencies and field values: the imaginary part is interpolated through a zero
  anchor at 1e-100 Hz, the samples, three ramp points and a zero anchor at 1e100 Hz.
  The ramp frequencies have the log10 values \<open>log10(last F) + k * gap\<close> for
  \<open>k = 1, 2, 3\<close>, where \<open>gap\<close> is the log10 distance of the last two frequencies and
  \<open>last F\<close> is the largest frequency; the ramp values are 0.75, 0.5 and 0.25 times
  the last field value. The real part uses the same points without the anchor at
  1e-100 Hz. The reconstructed spectrum combines the two interpolants.
\<close>

theorem reconstruction_control_points:
  assumes "loop_body C rtol ri st = Inr st'"
  shows "let F = cur_freq st'; E = cur_fEM st';
             gap = log 10 (last F) - log 10 (F ! (length F - 2));
             framp = map (\<lambda>k. 10 powr (log 10 (last F) + real k * gap)) [1, 2, 3]
         in 2 \<le> length F \<and> length E = length F \<and> last F = Max (set F) \<and>
            (\<exists>ip rp.
               pchip C ([1 / 10 ^ 100] @ F @ framp @ [10 ^ 100])
                 ([0] @ map Im E @
                  [0.75 * Im (last E), 0.5 * Im (last E), 0.25 * Im (last E)] @ [0]) = Some ip \<and>
               pchip C (F @ framp @ [10 ^ 100])
                 (map Re E @
                  [0.75 * Re (last E), 0.5 * Re (last E), 0.25 * Re (last E)] @ [0]) = Some rp \<and>
               take_idx (map (\<lambda>x. Complex (rp x) (ip x)) (cur_req_freq st)) ri
                 = Inr (cur_sfEM st'))"
proof -
  note b = loop_body_Inr [OF assms]
  from b(4) obtain framp ramp ip rp where
    fr: "freq_ramp (map (log 10) (cur_freq st')) = Inr framp" and
    rm: "fEM_ramp (cur_fEM st') = Inr ramp" and
    ip: "pchip C (itmp_f (cur_freq st') framp) (itmp_s (cur_fEM st') ramp) = Some ip" and
    rp: "pchip C (rtmp_f (cur_freq st') framp) (rtmp_s (cur_fEM st') ramp) = Some rp" and
    sf: "take_idx (map2 (\<lambda>r i. of_real r + \<i> * of_real i)
                       (map rp (cur_req_freq st)) (map ip (cur_req_freq st))) ri
             = Inr (cur_sfEM st')"
    by blast
  note f = freq_ramp_Inr [OF fr]
  note r = fEM_ramp_Inr [OF rm]
  from b(3) obtain out where
    g: "get_new_freq_full (pchip C) (cur_freq st') (cur_fEM st') rtol
          (Some (cur_req_freq st)) = Inr out" by blast
  have len: "length (cur_fEM st') = length (cur_freq st')" using gnf_full_Inr(2) [OF g] .
  have "sorted_wrt (<) (cur_freq st')" using b(1) np_unique_sorted by simp
  then have "sorted (cur_freq st')" by (rule strict_sorted_imp_sorted)
  moreover have "cur_freq st' \<noteq> []" using f(1) by auto
  ultimately have mx: "last (cur_freq st') = Max (set (cur_freq st'))"
    by (rule sorted_last_Max)
  have ip': "pchip C ([1 / 10 ^ 100] @ cur_freq st' @ framp @ [10 ^ 100])
                 ([0] @ map Im (cur_fEM st') @
                  [0.75 * Im (last (cur_fEM st')), 0.5 * Im (last (cur_fEM st')),
                   0.25 * Im (last (cur_fEM st'))] @ [0]) = Some ip"
    using ip r(2) by (simp add: itmp_f_def itmp_s_def)
  have rp': "pchip C (cur_freq st' @ framp @ [10 ^ 100])
                 (map Re (cur_fEM st') @
                  [0.75 * Re (last (cur_fEM st')), 0.5 * Re (last (cur_fEM st')),
                   0.25 * Re (last (cur_fEM st'))] @ [0]) = Some rp"
    using rp r(3) by (simp add: rtmp_f_def rtmp_s_def)
  have sf': "take_idx (map (\<lambda>x. Complex (rp x) (ip x)) (cur_req_freq st)) ri
                 = Inr (cur_sfEM st')"
    using sf by (simp only: combine_parts)
  show ?thesis
    unfolding Let_def f(2) [symmetric]
    using f(1) len mx ip' rp' sf' by blast
qed

theorem reconstruction_control_points_witness:
  "loop_body example_collab (1 / 20) [0] (init_state [1, 10] [5] [0]) =
     Inr \<lparr>cur_freq = [1, 10], cur_fEM = [1, 1], cur_new_freq = [], cur_req_freq = [5],
          cur_sfEM = [1], cur_tEM = []\<rparr> \<and>
   (\<exists>ip rp.
      linear_interpolant [1 / 10 ^ 100, 1, 10, 10 powr 2, 10 powr 3, 10 powr 4, 10 ^ 100]
        [0, 0, 0, 0, 0, 0, 0] = Some ip \<and>
      linear_interpolant [1, 10, 10 powr 2, 10 powr 3, 10 powr 4, 10 ^ 100]
        [1, 1, 0.75, 0.5, 0.25, 0] = Some rp \<and>
      take_idx [Complex (rp 5) (ip 5)] [0] = Inr [1])"
proof -
  have "\<exists>ip rp.
      linear_interpolant [1 / 10 ^ 100, 1, 10, 10 powr 2, 10 powr 3, 10 powr 4, 10 ^ 100]
        [0, 0, 0, 0, 0, 0, 0] = Some ip \<and>
      linear_interpolant [1, 10, 10 powr 2, 10 powr 3, 10 powr 4, 10 ^ 100]
        [1, 1, 0.75, 0.5, 0.25, 0] = Some rp \<and>
      take_idx [Complex (rp 5) (ip 5)] [0] = Inr [1]"
    using reconstruction_control_points [OF example_first_pass]
    by (simp add: example_collab_def init_state_def Let_def)
  with example_first_pass show ?thesis by blast
qed

lemma loop_body_new_freq:
  assumes "loop_body C rtol ri st = Inr st'"
  shows "length (cur_new_freq st') \<le> 1"
proof -
  from loop_body_Inr(3) [OF assms] obtain out where
    g: "get_new_freq_full (pchip C) (cur_freq st') (cur_fEM st') rtol
          (Some (cur_req_freq st)) = Inr out" and n: "cur_new_freq st' = new_freq out"
    by blast
  from gnf_new_freq [OF g] n show ?thesis by simp
qed

lemma loop_body_merge:
  assumes "loop_body C rtol ri st = Inr st'"
  shows "sorted_wrt (<) (cur_freq st')"
    and "set (cur_freq st') = set (cur_freq st) \<union> set (cur_new_freq st)"
    and "length (cur_freq st') \<le> length (cur_freq st) + length (cur_new_freq st)"
    and "distinct (cur_freq st) \<Longrightarrow> length (cur_freq st) \<le> length (cur_freq st')"
proof -
  note b = loop_body_Inr [OF assms]
  show "sorted_wrt (<) (cur_freq st')" using b(1) np_unique_sorted by simp
  show "set (cur_freq st') = set (cur_freq st) \<union> set (cur_new_freq st)"
    using b(1) np_unique_set [of "cur_freq st @ cur_new_freq st"] by simp
  show "length (cur_freq st') \<le> length (cur_freq st) + length (cur_new_freq st)"
    using b(1) merge_growth(2) [of "cur_freq st" "cur_new_freq st"]
      np_unique_length [of "cur_freq st @ cur_new_freq st"] card_length [of "cur_freq st @ cur_new_freq st"]
    by simp
  show "length (cur_freq st) \<le> length (cur_freq st')" if "distinct (cur_freq st)"
    using b(1) merge_growth(1) [OF that] by simp
qed

lemma loop_body_aligned:
  assumes "loop_body C rtol ri st = Inr st'"
    and "length (cur_fEM st) = length (cur_freq st)"
  shows "length (cur_fEM st') = length (cur_freq st')"
    and "set (zip (cur_freq st') (cur_fEM st')) \<subseteq>
           set (zip (cur_freq st) (cur_fEM st)) \<union>
           set (zip (cur_new_freq st) (dipole C (cur_new_freq st)))"
proof -
  note b = loop_body_Inr [OF assms(1)]
  note m = merge_aligned [OF b(2) assms(2)]
  show "length (cur_fEM st') = length (cur_freq st')" using m(1) b(1) by simp
  show "set (zip (cur_freq st') (cur_fEM st')) \<subseteq>
           set (zip (cur_freq st) (cur_fEM st)) \<union>
           set (zip (cur_new_freq st) (dipole C (cur_new_freq st)))"
    using m(2) b(1) by simp
qed

lemma loop_body_invariant:
  assumes "loop_body C rtol ri st = Inr st'"
    and "length (cur_fEM st) = length (cur_freq st)"
    and "\<forall>p\<in>set (zip (cur_freq st) (cur_fEM st)). \<exists>fs. p \<in> set (zip fs (dipole C fs))"
  shows "sorted_wrt (<) (cur_freq st') \<and> length (cur_fEM st') = length (cur_freq st') \<and>
         (\<forall>p\<in>set (zip (cur_freq st') (cur_fEM st')). \<exists>fs. p \<in> set (zip fs (dipole C fs)))"
proof -
  note a = loop_body_aligned [OF assms(1,2)]
  have "\<forall>p\<in>set (zip (cur_freq st') (cur_fEM st')). \<exists>fs. p \<in> set (zip fs (dipole C fs))"
  proof
    fix p assume "p \<in> set (zip (cur_freq st') (cur_fEM st'))"
    with a(2) have "p \<in> set (zip (cur_freq st) (cur_fEM st)) \<or>
        p \<in> set (zip (cur_new_freq st) (dipole C (cur_new_freq st)))" by blast
    then show "\<exists>fs. p \<in> set (zip fs (dipole C fs))" using assms(3) by blast
  qed
  with loop_body_merge(1) [OF assms(1)] a(1) show ?thesis by blast
qed

lemma iterate_invariant:
  assumes "iterate C rtol ri n st0 = Inr st"
    and "sorted_wrt (<) (cur_freq st0) \<and> length (cur_fEM st0) = length (cur_freq st0) \<and>
         (\<forall>p\<in>set (zip (cur_freq st0) (cur_fEM st0)). \<exists>fs. p \<in> set (zip fs (dipole C fs)))"
  shows "sorted_wrt (<) (cur_freq st) \<and> length (cur_fEM st) = length (cur_freq st) \<and>
         (\<forall>p\<in>set (zip (cur_freq st) (cur_fEM st)). \<exists>fs. p \<in> set (zip fs (dipole C fs)))"
  using assms
proof (induction n arbitrary: st0)
  case 0
  then show ?case by simp
next
  case (Suc n)
  show ?case
  proof (cases "length (cur_new_freq st0) > 0")
    case False
    with Suc.prems show ?thesis by simp
  next
    case True
    with Suc.prems(1) obtain st1 where
      b: "loop_body C rtol ri st0 = Inr st1" and r: "iterate C rtol ri n st1 = Inr st"
      by (auto split: sum.splits)
    from loop_body_invariant [OF b] Suc.prems(2) have
      "sorted_wrt (<) (cur_freq st1) \<and> length (cur_fEM st1) = length (cur_freq st1) \<and>
         (\<forall>p\<in>set (zip (cur_freq st1) (cur_fEM st1)). \<exists>fs. p \<in> set (zip fs (dipole C fs)))"
      by blast
    from Suc.IH [OF r this] show ?thesis .
  qed
qed

lemma iterate_new_freq:
  assumes "iterate C rtol ri n st0 = Inr st" and "0 < n"
  shows "length (cur_new_freq st) \<le> 1"
  using assms
proof (induction n arbitrary: st0)
  case 0
  then show ?case by simp
next
  case (Suc n)
  show ?case
  proof (cases "length (cur_new_freq st0) > 0")
    case False
    with Suc.prems show ?thesis by simp
  next
    case True
    with Suc.prems(1) obtain st1 where
      b: "loop_body C rtol ri st0 = Inr st1" and r: "iterate C rtol ri n st1 = Inr st"
      by (auto split: sum.splits)
    show ?thesis
    proof (cases n)
      case 0
      with r have "st = st1" by simp
      then show ?thesis using loop_body_new_freq [OF b] by simp
    next
      case (Suc m)
      then show ?thesis using Suc.IH [OF r] by simp
    qed
  qed
qed

lemma log_10_100: "log 10 100 = 2"
proof -
  have "log 10 ((10::real) ^ 2) = real 2" by (rule log_pow_cancel) simp_all
  then show ?thesis by simp
qed

lemma log_10_1000: "log 10 1000 = 3"
proof -
  have "log 10 ((10::real) ^ 3) = real 3" by (rule log_pow_cancel) simp_all
  then show ?thesis by simp
qed

lemma log_10_10000: "log 10 10000 = 4"
proof -
  have "log 10 ((10::real) ^ 4) = real 4" by (rule log_pow_cancel) simp_all
  then show ?thesis by simp
qed

lemma peak_first_gnf:
  "get_new_freq_full linear_interpolant [1, 100, 10000] [0, 0, \<i>] (1 / 200) (Some [5]) =
     Inr \<lparr>new_freq = [1000], i_field = [0, \<i> * (1 / 101), 0],
          error = [Finite 0, Finite (1 / 101), Finite 1], ierr = [1, 2],
          i_field2 = Some [0]\<rparr>"
  by (simp add: gnf_eval tmp_f2_def tmp_s2_def log_10_100 log_10_10000)

lemmas loop_eval = loop_body_def np_unique_def freq_ramp_def fEM_ramp_def py_last_def
  np_diff_def itmp_f_def itmp_s_def rtmp_f_def rtmp_s_def pchip_interpolate_def
  linear_interpolant_def Let_def

lemma peak_first_pass:
  "loop_body peak_collab (1 / 200) [0] (init_state [1, 100, 10000] [5] [0]) =
     Inr \<lparr>cur_freq = [1, 100, 10000], cur_fEM = [0, 0, \<i>], cur_new_freq = [1000],
          cur_req_freq = [5], cur_sfEM = [0], cur_tEM = []\<rparr>"
  by (simp add: loop_eval init_state_def peak_collab_def peak_first_gnf
      log_10_100 log_10_10000)

lemma peak_second_gnf:
  "get_new_freq_full linear_interpolant [1, 100, 1000, 10000] [0, 0, 0, \<i>] (1 / 200) (Some [5]) =
     Inr \<lparr>new_freq = [10 powr (7 / 2)], i_field = [0, 0, \<i> * (1 / 11), 0],
          error = [Finite 0, Finite 0, Finite (1 / 11), Finite 1], ierr = [2, 3],
          i_field2 = Some [0]\<rparr>"
  by (simp add: gnf_eval tmp_f2_def tmp_s2_def log_10_1000 log_10_10000)

lemma peak_second_pass:
  "loop_body peak_collab (1 / 200) [0]
     \<lparr>cur_freq = [1, 100, 10000], cur_fEM = [0, 0, \<i>], cur_new_freq = [1000],
      cur_req_freq = [5], cur_sfEM = [0], cur_tEM = []\<rparr> =
     Inr \<lparr>cur_freq = [1, 100, 1000, 10000], cur_fEM = [0, 0, 0, \<i>],
          cur_new_freq = [10 powr (7 / 2)],
          cur_req_freq = [5], cur_sfEM = [0], cur_tEM = []\<rparr>"
  by (simp add: loop_eval peak_collab_def peak_second_gnf log_10_1000 log_10_10000)


lemma iterate_keeps_frequencies:
  assumes "iterate C rtol ri n st0 = Inr st"
  shows "set (cur_freq st0) \<subseteq> set (cur_freq st)"
  using assms
proof (induction n arbitrary: st0)
  case 0
  then show ?case by simp
next
  case (Suc n)
  show ?case
  proof (cases "length (cur_new_freq st0) > 0")
    case False
    with Suc.prems show ?thesis by simp
  next
    case True
    with Suc.prems obtain st1 where
      b: "loop_body C rtol ri st0 = Inr st1" and r: "iterate C rtol ri n st1 = Inr st"
      by (auto split: sum.splits)
    from loop_body_merge(2) [OF b] have "set (cur_freq st0) \<subseteq> set (cur_freq st1)" by simp
    with Suc.IH [OF r] show ?thesis by simp
  qed
qed

lemma first_pass_frequencies:
  assumes "loop_body C rtol ri (init_state seed req_freq sfEM) = Inr st1"
  shows "set (cur_freq st1) = set seed" and "length (cur_freq st1) = card (set seed)"
proof -
  from loop_body_Inr(1) [OF assms] have c: "cur_freq st1 = fst (np_unique seed)"
    by (simp add: init_state_def)
  show "set (cur_freq st1) = set seed" using c np_unique_set by simp
  show "length (cur_freq st1) = card (set seed)" using c np_unique_length by simp
qed

lemma merge_new_frequency:
  assumes "loop_body C rtol ri st = Inr st'" and "distinct (cur_freq st)"
    and "cur_new_freq st = [f]" and "f \<notin> set (cur_freq st)"
  shows "length (cur_freq st') = length (cur_freq st) + 1"
proof -
  from loop_body_Inr(1) [OF assms(1)] assms(3) have
    "length (cur_freq st') = card (set (cur_freq st @ [f]))"
    by (simp add: np_unique_length)
  also have "\<dots> = card (insert f (set (cur_freq st)))" by simp
  also have "\<dots> = card (set (cur_freq st)) + 1" using assms(4) by simp
  finally show ?thesis using assms(2) by (simp add: distinct_card)
qed

text \<open>
  Claim C8, as the program has it. After every pass of the loop the frequencies are
  strictly increasing (so unique), the field array has the same length, and every
  pair of a frequency and its field value is a pair of an argument and a result of
  one call of the forward model. The first pass merges all initial frequencies into
  the empty arrays: the frequencies are then exactly the distinct initial ones, and
  they stay from there on. At most one new frequency is pending after a pass, so
  every later pass keeps all frequencies and adds at most one, exactly one when the
  pending frequency is not yet among them.
\<close>

theorem samples_stay_sorted_and_aligned:
  assumes "iterate C rtol ri n (init_state seed req_freq sfEM) = Inr st" and "0 < n"
  shows "sorted_wrt (<) (cur_freq st) \<and> length (cur_fEM st) = length (cur_freq st) \<and>
         (\<forall>p\<in>set (zip (cur_freq st) (cur_fEM st)). \<exists>fs. p \<in> set (zip fs (dipole C fs))) \<and>
         length (cur_new_freq st) \<le> 1 \<and>
         (\<forall>st1. loop_body C rtol ri (init_state seed req_freq sfEM) = Inr st1 \<longrightarrow>
            set (cur_freq st1) = set seed \<and> length (cur_freq st1) = card (set seed)) \<and>
         (seed \<noteq> [] \<longrightarrow> set seed \<subseteq> set (cur_freq st) \<and> card (set seed) \<le> length (cur_freq st)) \<and>
         (\<forall>st'. loop_body C rtol ri st = Inr st' \<longrightarrow>
            sorted_wrt (<) (cur_freq st') \<and> length (cur_fEM st') = length (cur_freq st') \<and>
            set (cur_freq st') = set (cur_freq st) \<union> set (cur_new_freq st) \<and>
            length (cur_freq st) \<le> length (cur_freq st') \<and>
            length (cur_freq st') \<le> length (cur_freq st) + 1 \<and>
            (\<forall>f. cur_new_freq st = [f] \<and> f \<notin> set (cur_freq st) \<longrightarrow>
               length (cur_freq st') = length (cur_freq st) + 1))"
proof -
  let ?init = "init_state seed req_freq sfEM"
  have init: "sorted_wrt (<) (cur_freq ?init) \<and>
      length (cur_fEM ?init) = length (cur_freq ?init) \<and>
      (\<forall>p\<in>set (zip (cur_freq ?init) (cur_fEM ?init)).
          \<exists>fs. p \<in> set (zip fs (dipole C fs)))"
    by (simp add: init_state_def)
  note inv = iterate_invariant [OF assms(1) init]
  note one = iterate_new_freq [OF assms]
  from inv have d: "distinct (cur_freq st)" by (simp add: strict_sorted_iff)
  from inv have l: "length (cur_fEM st) = length (cur_freq st)" by simp
  have first: "set (cur_freq st1) = set seed \<and> length (cur_freq st1) = card (set seed)"
    if "loop_body C rtol ri ?init = Inr st1" for st1
    using first_pass_frequencies [OF that] by simp
  have seeds: "set seed \<subseteq> set (cur_freq st) \<and> card (set seed) \<le> length (cur_freq st)"
    if ne: "seed \<noteq> []"
  proof -
    from assms(2) obtain m where n: "n = Suc m" by (cases n) auto
    from ne have "length (cur_new_freq ?init) > 0" by (simp add: init_state_def)
    with assms(1) n obtain st1 where
      b: "loop_body C rtol ri ?init = Inr st1" and r: "iterate C rtol ri m st1 = Inr st"
      by (auto split: sum.splits)
    from first [OF b] iterate_keeps_frequencies [OF r] have
      sub: "set seed \<subseteq> set (cur_freq st)" by simp
    then have "card (set seed) \<le> card (set (cur_freq st))" by (intro card_mono) simp_all
    then show ?thesis using sub d by (simp add: distinct_card)
  qed
  have step: "sorted_wrt (<) (cur_freq st') \<and> length (cur_fEM st') = length (cur_freq st') \<and>
            set (cur_freq st') = set (cur_freq st) \<union> set (cur_new_freq st) \<and>
            length (cur_freq st) \<le> length (cur_freq st') \<and>
            length (cur_freq st') \<le> length (cur_freq st) + 1 \<and>
            (\<forall>f. cur_new_freq st = [f] \<and> f \<notin> set (cur_freq st) \<longrightarrow>
               length (cur_freq st') = length (cur_freq st) + 1)"
    if b: "loop_body C rtol ri st = Inr st'" for st'
  proof -
    note m = loop_body_merge [OF b]
    from m(3) one have "length (cur_freq st') \<le> length (cur_freq st) + 1" by simp
    moreover have "\<forall>f. cur_new_freq st = [f] \<and> f \<notin> set (cur_freq st) \<longrightarrow>
               length (cur_freq st') = length (cur_freq st) + 1"
      using merge_new_frequency [OF b d] by blast
    ultimately show ?thesis using m(1) m(2) m(4) [OF d] loop_body_aligned(1) [OF b l] by simp
  qed
  from inv one first seeds step show ?thesis by blast
qed

theorem samples_stay_sorted_and_aligned_witness:
  "iterate peak_collab (1 / 200) [0] (Suc 0) (init_state [1, 100, 10000] [5] [0]) =
     Inr \<lparr>cur_freq = [1, 100, 10000], cur_fEM = [0, 0, \<i>], cur_new_freq = [1000],
          cur_req_freq = [5], cur_sfEM = [0], cur_tEM = []\<rparr> \<and>
   (0::nat) < Suc 0 \<and>
   loop_body peak_collab (1 / 200) [0]
     \<lparr>cur_freq = [1, 100, 10000], cur_fEM = [0, 0, \<i>], cur_new_freq = [1000],
      cur_req_freq = [5], cur_sfEM = [0], cur_tEM = []\<rparr> =
     Inr \<lparr>cur_freq = [1, 100, 1000, 10000], cur_fEM = [0, 0, 0, \<i>],
          cur_new_freq = [10 powr (7 / 2)],
          cur_req_freq = [5], cur_sfEM = [0], cur_tEM = []\<rparr> \<and>
   [1, 100, 10000 :: real] \<noteq> [] \<and> 1000 \<notin> set [1, 100, 10000 :: real] \<and>
   sorted_wrt (<) [1, 100, 10000 :: real] \<and>
   (\<exists>fs. (10000, \<i>) \<in> set (zip fs (dipole peak_collab fs))) \<and>
   card (set [1, 100, 10000 :: real]) \<le> length [1, 100, 10000 :: real] \<and>
   length [1, 100, 1000, 10000 :: real] = length [1, 100, 10000 :: real] + 1"
proof -
  have run: "iterate peak_collab (1 / 200) [0] (Suc 0) (init_state [1, 100, 10000] [5] [0]) =
     Inr \<lparr>cur_freq = [1, 100, 10000], cur_fEM = [0, 0, \<i>], cur_new_freq = [1000],
          cur_req_freq = [5], cur_sfEM = [0], cur_tEM = []\<rparr>"
    using peak_first_pass by (simp add: init_state_def)
  have "(\<exists>fs. (10000, \<i>) \<in> set (zip fs (dipole peak_collab fs))) \<and>
      card (set [1, 100, 10000 :: real]) \<le> length [1, 100, 10000 :: real]"
    using samples_stay_sorted_and_aligned [OF run] by simp
  with run peak_second_pass show ?thesis by simp
qed


text \<open>
  Claim C8 as stated fails in the first pass: with the initial frequencies 1 and
  10 Hz the frequency array grows from no entry to two entries in one iteration.
\<close>

theorem first_pass_adds_all_initial_frequencies:
  "map_sum id cur_freq (loop_body example_collab (1 / 20) [0] (init_state [1, 10] [5] [0]))
     = Inr [1, 10] \<and>
   cur_freq (init_state [1, 10] [5] [0]) = []"
  by (simp add: example_first_pass) (simp add: init_state_def)

section \<open>The bisection in double precision\<close>






section \<open>Progress of the refinement\<close>








lemma propose_fl_exact: "propose_fl (\<lambda>x. x) freq err ie rtol = propose freq err ie rtol"
proof -
  have "map (\<lambda>x. x) (np_diff (map (log 10) freq)) = np_diff (map (log 10) freq)" by simp
  then show ?thesis by (simp add: propose_fl_def propose_def Let_def)
qed

lemma get_new_freq_rounded_exact:
  "get_new_freq_rounded (\<lambda>x. x) interp freq field rtol = get_new_freq interp freq field rtol"
proof (cases "get_new_freq_full interp freq field rtol None")
  case (Inl e)
  then show ?thesis by (simp add: get_new_freq_rounded_def get_new_freq_def)
next
  case (Inr out)
  from gnf_full_Inr(8) [OF Inr] show ?thesis
    using Inr by (simp add: get_new_freq_rounded_def get_new_freq_def propose_fl_exact)
qed




end
